theory Spec2Isabelle
  imports Complex_Main
begin

section \<open>Python values\<close>

text \<open>
  The program is dynamically typed. The values that reach the functions verified below
  are \<open>None\<close>, integers, strings and datetimes; they are the constructors of
  \<open>pyval\<close>. A datetime is naive (wall-clock seconds) or aware (wall-clock seconds and
  the offset of its zone from UTC). Python's \<open>bool\<close> is a subclass of \<open>int\<close>:
  \<open>True\<close> and \<open>False\<close> are the integers 1 and 0 (they differ only in how they
  print). Floats, lists and dictionaries are not modelled as values. A reading of the
  clock, \<open>datetime.now(timezone.utc)\<close>, is an integer.
\<close>

datatype pydatetime = Naive int | Aware int int

datatype pyval = PNone | PInt int | PStr string | PDateTime pydatetime

text \<open>Python's truth value of an object, as \<open>if x:\<close> and \<open>x and y\<close> test it.\<close>

fun truthy :: "pyval \<Rightarrow> bool" where
  "truthy PNone = False"
| "truthy (PInt i) = (i \<noteq> 0)"
| "truthy (PStr s) = (s \<noteq> [])"
| "truthy (PDateTime d) = True"

text \<open>
  \<open>int(x)\<close>. On a string Python strips surrounding whitespace, reads an optional sign and
  then decimal digits, where single underscores may separate digits; anything else raises
  \<open>ValueError\<close>. On \<open>None\<close> or a datetime it raises \<open>TypeError\<close>.
\<close>

datatype pyexc = ValueError | TypeError

definition is_space :: "char \<Rightarrow> bool" where
  "is_space c = (of_char c \<in> {9, 10, 11, 12, 13, 28, 29, 30, 31, 32, 133, 160 :: nat})"

definition is_digit :: "char \<Rightarrow> bool" where
  "is_digit c = (48 \<le> (of_char c :: nat) \<and> (of_char c :: nat) \<le> 57)"

definition digit_val :: "char \<Rightarrow> int" where
  "digit_val c = int (of_char c) - 48"

definition strip :: "string \<Rightarrow> string" where
  "strip s = rev (dropWhile is_space (rev (dropWhile is_space s)))"

fun py_digits :: "int \<Rightarrow> string \<Rightarrow> int option" where
  "py_digits acc [] = Some acc"
| "py_digits acc (c # cs) =
     (if is_digit c then py_digits (10 * acc + digit_val c) cs
      else if c = CHR ''_'' \<and> cs \<noteq> [] \<and> is_digit (hd cs) then py_digits acc cs
      else None)"

definition py_unsigned :: "string \<Rightarrow> int option" where
  "py_unsigned s = (case s of [] \<Rightarrow> None | c # cs \<Rightarrow> if is_digit c then py_digits 0 s else None)"

definition int_of_str :: "string \<Rightarrow> int option" where
  "int_of_str s =
     (case strip s of
        [] \<Rightarrow> None
      | c # cs \<Rightarrow>
          if c = CHR ''-'' then map_option uminus (py_unsigned cs)
          else if c = CHR ''+'' then py_unsigned cs
          else py_unsigned (c # cs))"

fun py_int :: "pyval \<Rightarrow> pyexc + int" where
  "py_int (PInt i) = Inr i"
| "py_int (PStr s) = (case int_of_str s of None \<Rightarrow> Inl ValueError | Some i \<Rightarrow> Inr i)"
| "py_int PNone = Inl TypeError"
| "py_int (PDateTime d) = Inl TypeError"

section \<open>The local store: \<open>Task\<close> and its sync state\<close>

text \<open>
  A row of the table \<open>tasks\<close>, as the Python object holds it: an attribute that
  the program assigns from request or wire data holds a Python value. The columns
  \<open>created\<close> and \<open>actual_duration\<close>, which none of the modelled functions reads
  or writes, are left out.
\<close>

record Task =
  uid :: pyval
  summary :: pyval
  completed :: bool
  parent_uid :: pyval
  calendar_url :: pyval
  due :: pyval
  updated :: int
  completed_at :: pyval
  priority :: pyval
  description :: pyval
  tags :: pyval
  estimated_duration :: pyval
  is_synced :: bool
  operation :: "string option"
  last_sync :: "int option"
  sync_attempts :: int

text \<open>The validators of the model class; \<open>Inl\<close> is the exception with its message.\<close>

definition validate_summary :: "pyval \<Rightarrow> string + pyval" where
  "validate_summary v =
     (if \<not> truthy v then Inl ''Task summary cannot be empty''
      else (case v of
              PStr s \<Rightarrow>
                if strip s = [] then Inl ''Task summary cannot be empty''
                else Inr (PStr (strip s))
            | _ \<Rightarrow> Inl ''AttributeError: strip''))"

definition validate_priority :: "pyval \<Rightarrow> string + pyval" where
  "validate_priority p =
     (if p = PNone then Inr PNone
      else (case py_int p of
              Inl e \<Rightarrow> Inl ''Priority must be an integer''
            | Inr i \<Rightarrow>
                if \<not> (1 \<le> i \<and> i \<le> 9) then Inl ''Priority must be between 1 and 9''
                else Inr (PInt i)))"

definition validate_uid :: "string \<Rightarrow> pyval \<Rightarrow> pyval" where
  "validate_uid fresh_uid u = (if \<not> truthy u then PStr fresh_uid else u)"

definition mark_for_sync :: "int \<Rightarrow> string \<Rightarrow> Task \<Rightarrow> Task" where
  "mark_for_sync now op t =
     t\<lparr>is_synced := False, operation := Some op, sync_attempts := 0, updated := now\<rparr>"

definition mark_synced :: "int \<Rightarrow> Task \<Rightarrow> Task" where
  "mark_synced now t =
     t\<lparr>is_synced := True, operation := None, last_sync := Some now, sync_attempts := 0\<rparr>"

definition increment_sync_attempts :: "Task \<Rightarrow> Task" where
  "increment_sync_attempts t = t\<lparr>sync_attempts := sync_attempts t + 1\<rparr>"

text \<open>
  The audit table and the database session. The session works on \<open>pending\<close>;
  \<open>commit\<close> makes it durable, \<open>rollback\<close> (also what the end of a request does to an
  uncommitted session) throws it away.
\<close>

datatype sync_log = SyncLog pyval string pyval string "string option"

record database =
  tasks :: "Task list"
  sync_logs :: "sync_log list"

record session =
  durable :: database
  pending :: database

definition commit :: "session \<Rightarrow> session" where
  "commit s = s\<lparr>durable := pending s\<rparr>"

definition rollback :: "session \<Rightarrow> session" where
  "rollback s = s\<lparr>pending := durable s\<rparr>"

text \<open>
  \<open>log_sync_operation\<close> adds the entry and commits the session, with whatever else is
  pending in it.
\<close>

definition log_sync_operation ::
  "pyval \<Rightarrow> string \<Rightarrow> pyval \<Rightarrow> string \<Rightarrow> string option \<Rightarrow> session \<Rightarrow> session" where
  "log_sync_operation cal op task_uid status error_details s =
     (if op = [] then s
      else commit (s\<lparr>pending :=
             (pending s)\<lparr>sync_logs := sync_logs (pending s)
                                        @ [SyncLog cal op task_uid status error_details]\<rparr>\<rparr>))"

text \<open>\<open>Task.query.filter_by(uid=..., calendar_url=...).first()\<close> on the session.\<close>

definition query_task :: "session \<Rightarrow> pyval \<Rightarrow> pyval \<Rightarrow> Task option" where
  "query_task s u cal = find (\<lambda>t. uid t = u \<and> calendar_url t = cal) (tasks (pending s))"

text \<open>A change to the object the session holds for that row.\<close>

definition store_task :: "session \<Rightarrow> pyval \<Rightarrow> pyval \<Rightarrow> Task \<Rightarrow> session" where
  "store_task s u cal t' =
     s\<lparr>pending := (pending s)\<lparr>tasks :=
          map (\<lambda>t. if uid t = u \<and> calendar_url t = cal then t' else t) (tasks (pending s))\<rparr>\<rparr>"

definition add_task :: "session \<Rightarrow> Task \<Rightarrow> session" where
  "add_task s t = s\<lparr>pending := (pending s)\<lparr>tasks := tasks (pending s) @ [t]\<rparr>\<rparr>"

definition delete_row :: "session \<Rightarrow> pyval \<Rightarrow> pyval \<Rightarrow> session" where
  "delete_row s u cal =
     s\<lparr>pending := (pending s)\<lparr>tasks :=
          filter (\<lambda>t. \<not> (uid t = u \<and> calendar_url t = cal)) (tasks (pending s))\<rparr>\<rparr>"

section \<open>The remote client as the request handlers call it\<close>

text \<open>
  A call of a client method returns or raises. What the remote store answers is a
  parameter of the handlers: \<open>r_create_task\<close> (called with summary, calendar url,
  parent uid, description, due and priority) returns the new uid,
  \<open>r_get_task_by_uid\<close> tells whether the remote object exists, \<open>r_update_task\<close>
  has no return statement and so returns \<open>None\<close>, \<open>r_delete_task\<close> tells whether there
  was something to delete.
\<close>

datatype 'a outcome = Return 'a | Raise string

type_synonym create_args = "pyval \<times> pyval \<times> pyval \<times> pyval \<times> pyval \<times> pyval"

record remote =
  r_create_task :: "create_args \<Rightarrow> string outcome"
  r_get_task_by_uid :: "pyval \<Rightarrow> bool outcome"
  r_update_task :: "Task \<Rightarrow> unit outcome"
  r_delete_task :: "pyval \<Rightarrow> bool outcome"

text \<open>\<open>handle_caldav_error\<close>: the pair \<open>(result, error)\<close>.\<close>

definition handle_caldav_error :: "pyval outcome \<Rightarrow> pyval \<times> string option" where
  "handle_caldav_error r = (case r of Return v \<Rightarrow> (v, None) | Raise e \<Rightarrow> (PNone, Some e))"

datatype response = Response int string

section \<open>The request handlers\<close>

text \<open>
  What a handler takes from outside the repository: the date parser of the request
  layer (\<open>None\<close> when it raises), \<open>json.dumps\<close>, \<open>str(uuid.uuid4())\<close> and the
  clock. In the handlers the store's own failures (a constraint violated at commit)
  are not modelled.
\<close>

record env =
  e_parse :: "pyval \<Rightarrow> pyval option"
  e_dumps :: "pyval \<Rightarrow> string"
  e_uuid4 :: string
  e_now :: int

text \<open>\<open>data.get(key)\<close> on the request's JSON object.\<close>

definition data_get :: "(string \<times> pyval) list \<Rightarrow> string \<Rightarrow> pyval" where
  "data_get data k = (case map_of data k of None \<Rightarrow> PNone | Some v \<Rightarrow> v)"

subsection \<open>\<open>create_task\<close> (POST /tasks)\<close>

text \<open>The block under \<open># Validate priority\<close>: the response it returns, or the priority.\<close>

datatype 'a step = Respond response | Raised string | Go 'a

definition request_priority :: "pyval \<Rightarrow> pyval step" where
  "request_priority p =
     (if p \<noteq> PNone then
        (case py_int p of
           Inl ValueError \<Rightarrow> Respond (Response 400 ''Priority must be a number'')
         | Inl TypeError \<Rightarrow> Raised ''TypeError''
         | Inr i \<Rightarrow>
             if i < 0 \<or> i > 9 then Respond (Response 400 ''Priority must be between 0 and 9 '')
             else Go (PInt i))
      else Go p)"

text \<open>
  The checks of the handler before it calls the remote store, in the source's order:
  the decorator's required field, the calendar url, the summary, the due date, the
  priority, the parent.
\<close>

definition create_task_checks ::
  "env \<Rightarrow> (string \<times> pyval) list \<Rightarrow> session \<Rightarrow> create_args step" where
  "create_task_checks e data s =
     (if map_of data ''summary'' = None
      then Respond (Response 400 ''Missing required fields: summary'')
      else if \<not> truthy (data_get data ''calendar_url'')
      then Respond (Response 400 ''Missing calendar_url'')
      else
        (case map_of data ''summary'' of
           Some (PStr raw) \<Rightarrow>
             if strip raw = [] then Respond (Response 400 ''Task summary cannot be empty'')
             else
               (case (if truthy (data_get data ''due'')
                      then e_parse e (data_get data ''due'') else Some PNone) of
                  None \<Rightarrow> Respond (Response 400 ''Invalid due datetime format'')
                | Some due_v \<Rightarrow>
                    (case request_priority (data_get data ''priority'') of
                       Respond r \<Rightarrow> Respond r
                     | Raised x \<Rightarrow> Raised x
                     | Go prio \<Rightarrow>
                         if truthy (data_get data ''parent_uid'') \<and>
                            query_task s (data_get data ''parent_uid'')
                              (data_get data ''calendar_url'') = None
                         then Respond (Response 404 ''Parent task not found'')
                         else Go (PStr (strip raw), data_get data ''calendar_url'',
                                  data_get data ''parent_uid'', data_get data ''description'',
                                  due_v, prio)))
         | _ \<Rightarrow> Raised ''AttributeError: strip''))"

text \<open>
  \<open>Task(...)\<close> in the handler: the validators run on \<open>uid\<close>, \<open>summary\<close> and
  \<open>priority\<close>; the first that raises ends the construction.
\<close>

definition new_task ::
  "env \<Rightarrow> (string \<times> pyval) list \<Rightarrow> create_args \<Rightarrow> pyval \<Rightarrow> bool \<Rightarrow> string option
     \<Rightarrow> string + Task" where
  "new_task e data args new_uid synced op =
     (case args of (summ, cal, parent, descr, due_v, prio) \<Rightarrow>
        (case validate_summary summ of
           Inl msg \<Rightarrow> Inl msg
         | Inr summ' \<Rightarrow>
             (case validate_priority prio of
                Inl msg \<Rightarrow> Inl msg
              | Inr prio' \<Rightarrow>
                  Inr \<lparr> uid = validate_uid (e_uuid4 e) new_uid, summary = summ',
                        completed = False, parent_uid = parent, calendar_url = cal,
                        due = due_v, updated = e_now e, completed_at = PNone,
                        priority = prio', description = descr,
                        tags = (if truthy (data_get data ''tags'')
                                then PStr (e_dumps e (data_get data ''tags'')) else PNone),
                        estimated_duration = data_get data ''estimated_duration'',
                        is_synced = synced, operation = op, last_sync = None,
                        sync_attempts = 0 \<rparr>)))"

text \<open>
  The handler. An exception inside its \<open>try\<close> rolls the session back and answers 500
  with the exception's message.
\<close>

definition app_create_task ::
  "env \<Rightarrow> remote option \<Rightarrow> (string \<times> pyval) list \<Rightarrow> session \<Rightarrow> response \<times> session" where
  "app_create_task e client data s =
     (case create_task_checks e data s of
        Respond r \<Rightarrow> (r, s)
      | Raised x \<Rightarrow> (Response 500 x, rollback s)
      | Go args \<Rightarrow>
          (let cal = fst (snd args);
               (new_uid, synced, op, s1) =
                 (case client of
                    None \<Rightarrow> (PStr (e_uuid4 e), False, Some ''create'', s)
                  | Some c \<Rightarrow>
                      (case handle_caldav_error
                              (case r_create_task c args of
                                 Return u \<Rightarrow> Return (PStr u) | Raise x \<Rightarrow> Raise x) of
                         (result, error) \<Rightarrow>
                           if truthy result
                           then (result, True, None,
                                 log_sync_operation cal ''create'' result ''success'' None s)
                           else (PStr (e_uuid4 e), False, Some ''create'',
                                 log_sync_operation cal ''create'' (PStr (e_uuid4 e))
                                   ''error'' error s)))
           in (case new_task e data args new_uid synced op of
                 Inl msg \<Rightarrow> (Response 500 msg, rollback s1)
               | Inr t \<Rightarrow> (Response 201 ''created'', commit (add_task s1 t)))))"

subsection \<open>\<open>update_task\<close> (PATCH /tasks/uid): after the field edits\<close>

text \<open>
  The handler from \<open>if not changes\<close> on. \<open>task\<close> is the row object after the field
  edits and \<open>changed\<close> tells whether \<open>changes\<close> is non-empty. When the remote object
  is not found the client's \<open>update_task\<close> is called with \<open>None\<close> and raises.
\<close>

definition update_task_sync ::
  "env \<Rightarrow> remote option \<Rightarrow> pyval \<Rightarrow> pyval \<Rightarrow> Task \<Rightarrow> bool \<Rightarrow> session \<Rightarrow> response \<times> session" where
  "update_task_sync e client cal u task changed s =
     (if \<not> changed then (Response 200 ''No changes detected'', s)
      else
        (case client of
           None \<Rightarrow>
             (Response 200 ''Task updated'',
              commit (store_task s u cal (mark_for_sync (e_now e) ''update'' task)))
         | Some c \<Rightarrow>
             (case r_get_task_by_uid c u of
                Raise x \<Rightarrow> (Response 500 x, rollback s)
              | Return found \<Rightarrow>
                  (case handle_caldav_error
                          (case (if found then r_update_task c task
                                 else Raise ''Task update failed'') of
                             Return _ \<Rightarrow> Return PNone | Raise x \<Rightarrow> Raise x) of
                     (result, error) \<Rightarrow>
                       if truthy result
                       then (Response 200 ''Task updated'',
                             commit (log_sync_operation cal ''update'' u ''success'' None
                                (store_task s u cal (mark_synced (e_now e) task))))
                       else (Response 200 ''Task updated'',
                             commit (log_sync_operation cal ''update'' u ''error'' error
                                (store_task s u cal
                                   (mark_for_sync (e_now e) ''update'' task))))))))"

subsection \<open>\<open>push_pending\<close> (POST /push_pending)\<close>

text \<open>
  The body of the loop has no exception handler (the \<open>try\<close> and its \<open>except\<close> are
  commented out in the source), so an exception of a remote call leaves the handler:
  \<open>Inl\<close> with the session as it is then.
\<close>

definition push_done :: "env \<Rightarrow> pyval \<Rightarrow> Task \<Rightarrow> Task \<Rightarrow> session \<Rightarrow> session" where
  "push_done e cal task task' s =
     (let t = mark_synced (e_now e) task'
      in log_sync_operation cal
           (case operation t of None \<Rightarrow> ''unknown'' | Some op \<Rightarrow> if op = [] then ''unknown'' else op)
           (uid t) ''success'' None (store_task s (uid task) cal t))"

fun push_loop ::
  "env \<Rightarrow> remote \<Rightarrow> pyval \<Rightarrow> Task list \<Rightarrow> session \<times> nat \<Rightarrow> string \<times> session + session \<times> nat" where
  "push_loop e c cal [] st = Inr st"
| "push_loop e c cal (task # rest) (s, pushed_count) =
     (if operation task = Some ''create'' then
        (case r_create_task c (summary task, cal, parent_uid task, description task,
                               due task, priority task) of
           Raise x \<Rightarrow> Inl (x, s)
         | Return result \<Rightarrow>
             push_loop e c cal rest
               (push_done e cal task
                  (if result \<noteq> [] then task\<lparr>uid := PStr result\<rparr> else task) s,
                pushed_count + 1))
      else if operation task = Some ''update'' then
        (case r_get_task_by_uid c (uid task) of
           Raise x \<Rightarrow> Inl (x, s)
         | Return found \<Rightarrow>
             if \<not> found then Inl (''Task not found in remote calendar'', s)
             else
               (case r_update_task c task of
                  Raise x \<Rightarrow> Inl (x, s)
                | Return _ \<Rightarrow>
                    push_loop e c cal rest (push_done e cal task task s, pushed_count + 1)))
      else if operation task = Some ''delete'' then
        (case r_delete_task c (uid task) of
           Raise x \<Rightarrow> Inl (x, s)
         | Return _ \<Rightarrow>
             push_loop e c cal rest (delete_row s (uid task) cal, pushed_count + 1))
      else push_loop e c cal rest (push_done e cal task task s, pushed_count + 1))"

text \<open>
  The answer of the handler: the JSON body with its status code, or the exception that
  left it (the framework then answers 500 and the uncommitted session is dropped).
\<close>

datatype push_answer =
    PushUnavailable
  | NoPendingTasks
  | PushCompleted nat "string list" nat
  | Unhandled string

definition push_pending ::
  "env \<Rightarrow> remote option \<Rightarrow> pyval \<Rightarrow> session \<Rightarrow> push_answer \<times> session" where
  "push_pending e client cal s =
     (case client of
        None \<Rightarrow> (PushUnavailable, s)
      | Some c \<Rightarrow>
          (let unsynced_tasks =
                 sort_key updated
                   (filter (\<lambda>t. \<not> is_synced t \<and> calendar_url t = cal) (tasks (pending s)))
           in if unsynced_tasks = [] then (NoPendingTasks, s)
              else
                (case push_loop e c cal unsynced_tasks (s, 0) of
                   Inl (x, s') \<Rightarrow> (Unhandled x, rollback s')
                 | Inr (s', pushed_count) \<Rightarrow>
                     (PushCompleted pushed_count [] (length unsynced_tasks - pushed_count),
                      commit s'))))"

subsection \<open>Sample rows and collaborators\<close>

text \<open>
  A row of the calendar \<open>cal\<close> with a pending operation, a session that holds the given
  rows and nothing uncommitted, an environment, and a remote store that creates and
  deletes but has none of the rows.
\<close>

definition pending_row :: "string \<Rightarrow> string option \<Rightarrow> int \<Rightarrow> Task" where
  "pending_row u op upd =
     \<lparr> uid = PStr u, summary = PStr ''Buy milk'', completed = False, parent_uid = PNone,
       calendar_url = PStr ''cal'', due = PNone, updated = upd, completed_at = PNone,
       priority = PNone, description = PNone, tags = PNone, estimated_duration = PNone,
       is_synced = False, operation = op, last_sync = None, sync_attempts = 0 \<rparr>"

definition session_of :: "Task list \<Rightarrow> session" where
  "session_of ts =
     \<lparr> durable = \<lparr> tasks = ts, sync_logs = [] \<rparr>, pending = \<lparr> tasks = ts, sync_logs = [] \<rparr> \<rparr>"

definition sample_env :: env where
  "sample_env = \<lparr> e_parse = Some, e_dumps = (\<lambda>v. ''[]''), e_uuid4 = ''local-uid'', e_now = 100 \<rparr>"

definition empty_remote :: remote where
  "empty_remote =
     \<lparr> r_create_task = (\<lambda>a. Return ''server-uid''), r_get_task_by_uid = (\<lambda>u. Return False),
       r_update_task = (\<lambda>t. Return ()), r_delete_task = (\<lambda>u. Return False) \<rparr>"

section \<open>The wire record as the parser hands it over\<close>

text \<open>
  The iCalendar parser is a library outside the repository. Its result is modelled as
  the program sees it: a component has a name and content lines, a content line has an
  upper-case name and a value. \<open>getattr(comp, attr)\<close> is the first line of that name,
  \<open>hasattr\<close> tests whether there is one, \<open>comp.add(name)\<close> appends a line and
  \<open>comp.remove(line)\<close> removes the first line equal to it. A line is named by its
  property name (RELATED-TO for the attribute \<open>related_to\<close>). The parameters of a
  line and the components nested in a component are not modelled.
  A text the parser rejects is \<open>Garbled\<close>.
\<close>

type_synonym vline = "string \<times> pyval"

type_synonym vcomponent = "string \<times> vline list"

datatype wire = Garbled | ICal "vcomponent list"

definition getattr :: "vline list \<Rightarrow> string \<Rightarrow> pyval option" where
  "getattr ls attr = map_of ls attr"

definition hasattr :: "vline list \<Rightarrow> string \<Rightarrow> bool" where
  "hasattr ls attr = (getattr ls attr \<noteq> None)"

section \<open>Decoding: \<open>_parse_vtodo_safely\<close>\<close>

record task_data =
  uid :: pyval
  summary :: pyval
  description :: pyval
  due :: pyval
  created :: pyval
  completed_at :: pyval
  priority :: pyval
  percent_complete :: pyval
  completed :: bool
  parent_uid :: pyval

text \<open>\<open>safe_get_value\<close>: the value of the first line of that name, else the default.\<close>

definition safe_get_value :: "vline list \<Rightarrow> string \<Rightarrow> pyval \<Rightarrow> pyval" where
  "safe_get_value ls attr dflt = (case getattr ls attr of None \<Rightarrow> dflt | Some v \<Rightarrow> v)"

text \<open>
  The datetime library is outside the repository: \<open>astimezone(timezone.utc)\<close> is a
  parameter. It returns the converted datetime, raises \<open>ValueError\<close> or \<open>TypeError\<close>
  (which the date loop catches) or something else, such as \<open>OverflowError\<close> (which only the
  outer handler catches).
\<close>

datatype tz_outcome = Converted pydatetime | TzCaught | TzUncaught

text \<open>
  One round of the loop over the date fields: \<open>None\<close> when an exception leaves the loop
  for the outer handler.
\<close>

fun normalize_date_field :: "(pydatetime \<Rightarrow> tz_outcome) \<Rightarrow> pyval \<Rightarrow> pyval option" where
  "normalize_date_field astimezone (PDateTime d) =
     (case astimezone d of
        Converted d' \<Rightarrow> Some (PDateTime d')
      | TzCaught \<Rightarrow> Some PNone
      | TzUncaught \<Rightarrow> None)"
| "normalize_date_field astimezone v = Some v"

text \<open>The priority step of the decoder (the block under \<open># Validate priority\<close>).\<close>

definition decode_priority :: "pyval \<Rightarrow> pyval" where
  "decode_priority p =
     (if p \<noteq> PNone then
        (case py_int p of
           Inr i \<Rightarrow> PInt (max 1 (min 9 i))
         | Inl e \<Rightarrow> PNone)
      else p)"

text \<open>
  \<open>_parse_vtodo_safely\<close>. \<open>fresh_uid\<close> stands for \<open>str(uuid.uuid4())\<close>. The result is
  \<open>None\<close> where the source returns \<open>None\<close>: the parser raised, there is no VTODO
  component, or an exception reached the outer handler.
\<close>

definition parse_vtodo_safely ::
  "(pydatetime \<Rightarrow> tz_outcome) \<Rightarrow> string \<Rightarrow> wire \<Rightarrow> task_data option" where
  "parse_vtodo_safely astimezone fresh_uid todo_data =
     (case todo_data of
        Garbled \<Rightarrow> None
      | ICal comps \<Rightarrow>
          (case find (\<lambda>c. fst c = ''VTODO'') comps of
             None \<Rightarrow> None
           | Some vtodo \<Rightarrow>
               (let ls = snd vtodo;
                    status = safe_get_value ls ''STATUS'' (PStr ''NEEDS-ACTION'');
                    related_to = safe_get_value ls ''RELATED-TO'' PNone
                in
                 (case normalize_date_field astimezone (safe_get_value ls ''DUE'' PNone) of
                    None \<Rightarrow> None
                  | Some due' \<Rightarrow>
                 (case normalize_date_field astimezone (safe_get_value ls ''CREATED'' PNone) of
                    None \<Rightarrow> None
                  | Some created' \<Rightarrow>
                 (case normalize_date_field astimezone (safe_get_value ls ''COMPLETED'' PNone) of
                    None \<Rightarrow> None
                  | Some completed_at' \<Rightarrow>
                      Some \<lparr> uid = safe_get_value ls ''UID'' (PStr fresh_uid),
                             summary = safe_get_value ls ''SUMMARY'' (PStr ''Untitled Task''),
                             description = safe_get_value ls ''DESCRIPTION'' PNone,
                             due = due',
                             created = created',
                             completed_at = completed_at',
                             priority =
                               decode_priority (safe_get_value ls ''PRIORITY'' PNone),
                             percent_complete =
                               safe_get_value ls ''PERCENT-COMPLETE'' (PInt 0),
                             completed = (status = PStr ''COMPLETED''),
                             parent_uid = (if truthy related_to then related_to else PNone)
                           \<rparr>))))))"

section \<open>Hierarchy validation: \<open>_validate_task_hierarchy\<close>\<close>

text \<open>
  The batch is a Python dictionary from uid to task record. Its iteration order is its
  insertion order, so it is an association list; a dictionary holds every key once,
  and the records under different keys are different objects.
  \<open>k in task_map\<close> is \<open>map_of tm k \<noteq> None\<close>.
\<close>

type_synonym task_map = "(pyval \<times> task_data) list"

text \<open>\<open>task['parent_uid'] = None\<close> on the record stored under key \<open>k\<close>.\<close>

definition clear_parent :: "task_map \<Rightarrow> pyval \<Rightarrow> task_map" where
  "clear_parent tm k = map (\<lambda>(u, t). if u = k then (u, t\<lparr>parent_uid := PNone\<rparr>) else (u, t)) tm"

text \<open>
  The first loop, over the keys in order, with the state it mutates: the map and
  \<open>fixed_count\<close>.
\<close>

fun first_pass :: "pyval list \<Rightarrow> task_map \<times> nat \<Rightarrow> task_map \<times> nat" where
  "first_pass [] st = st"
| "first_pass (k # ks) (tm, fixed_count) =
     (case map_of tm k of
        None \<Rightarrow> first_pass ks (tm, fixed_count)
      | Some task \<Rightarrow>
          if truthy (parent_uid task) \<and> map_of tm (parent_uid task) = None
          then first_pass ks (clear_parent tm k, fixed_count + 1)
          else first_pass ks (tm, fixed_count))"

text \<open>
  The nested \<open>has_cycle\<close>. Every call copies \<open>visited\<close> with one more key of the
  map in it, which is why the walk ends. Python's bound on the recursion depth is not
  modelled.
\<close>

function has_cycle :: "task_map \<Rightarrow> pyval \<Rightarrow> pyval \<Rightarrow> pyval set \<Rightarrow> bool" where
  "has_cycle tm start_uid current_uid visited =
     (if current_uid = PNone then False
      else if current_uid = start_uid then True
      else if current_uid \<in> visited then False
      else (case map_of tm current_uid of
              None \<Rightarrow> False
            | Some task \<Rightarrow>
                has_cycle tm start_uid (parent_uid task) (insert current_uid visited)))"
  by pat_completeness auto
termination
proof (relation "measure (\<lambda>(tm, s, c, v). card (fst ` set tm - v))")
  show "wf (measure (\<lambda>(tm, s, c, v). card (fst ` set tm - v)))"
    by simp
next
  fix tm :: task_map and start_uid current_uid :: pyval and visited :: "pyval set" and task
  assume fresh: "current_uid \<notin> visited" and found: "map_of tm current_uid = Some task"
  from found have "current_uid \<in> fst ` set tm"
    by (metis map_of_SomeD fst_conv image_eqI)
  with fresh have "fst ` set tm - insert current_uid visited \<subset> fst ` set tm - visited"
    by blast
  then have "card (fst ` set tm - insert current_uid visited) < card (fst ` set tm - visited)"
    by (intro psubset_card_mono) simp_all
  then show "((tm, start_uid, parent_uid task, insert current_uid visited),
              (tm, start_uid, current_uid, visited))
             \<in> measure (\<lambda>(tm, s, c, v). card (fst ` set tm - v))"
    by simp
qed

text \<open>The second loop, over the items in order.\<close>

fun second_pass :: "pyval list \<Rightarrow> task_map \<times> nat \<Rightarrow> task_map \<times> nat" where
  "second_pass [] st = st"
| "second_pass (k # ks) (tm, fixed_count) =
     (case map_of tm k of
        None \<Rightarrow> second_pass ks (tm, fixed_count)
      | Some task \<Rightarrow>
          if truthy (parent_uid task) \<and> has_cycle tm k (parent_uid task) {}
          then second_pass ks (clear_parent tm k, fixed_count + 1)
          else second_pass ks (tm, fixed_count))"

text \<open>
  \<open>_validate_task_hierarchy\<close> returns the map; \<open>fixed_count\<close> is only logged, and
  \<open>validate_task_hierarchy_fixed\<close> keeps it beside the map.
\<close>

definition validate_task_hierarchy_fixed :: "task_map \<Rightarrow> task_map \<times> nat" where
  "validate_task_hierarchy_fixed tm =
     second_pass (map fst tm) (first_pass (map fst tm) (tm, 0))"

definition validate_task_hierarchy :: "task_map \<Rightarrow> task_map" where
  "validate_task_hierarchy tm = fst (validate_task_hierarchy_fixed tm)"

declare has_cycle.simps [simp del]

subsection \<open>The hierarchy as a graph\<close>

text \<open>
  The edges from a key to the parent of its record: \<open>parent_edges\<close> has an edge for
  every parent that is not \<open>None\<close>, \<open>live_edges\<close> for every parent that the program
  takes for one (a truthy \<open>parent_uid\<close>: not \<open>None\<close> and not the empty string).
\<close>

definition parent_edges :: "task_map \<Rightarrow> (pyval \<times> pyval) set" where
  "parent_edges tm = {(u, p). \<exists>t. map_of tm u = Some t \<and> parent_uid t = p \<and> p \<noteq> PNone}"

definition live_edges :: "task_map \<Rightarrow> (pyval \<times> pyval) set" where
  "live_edges tm = {(u, p). \<exists>t. map_of tm u = Some t \<and> parent_uid t = p \<and> truthy p}"

text \<open>
  The validity invariant in the specification's words: no cycles, and every non-null
  \<open>parent_uid\<close> is a key of the batch.
\<close>

definition hierarchy_valid :: "task_map \<Rightarrow> bool" where
  "hierarchy_valid tm =
     (acyclic (parent_edges tm)
      \<and> (\<forall>(u, t) \<in> set tm. parent_uid t \<noteq> PNone \<longrightarrow> map_of tm (parent_uid t) \<noteq> None))"

text \<open>
  What validation establishes, key by key: a truthy parent is a key of the batch, and
  the key lies on no cycle.
\<close>

definition settled :: "task_map \<Rightarrow> bool" where
  "settled tm =
     (\<forall>k t. map_of tm k = Some t \<and> truthy (parent_uid t) \<longrightarrow>
        map_of tm (parent_uid t) \<noteq> None \<and> (k, k) \<notin> (parent_edges tm)\<^sup>+)"

text \<open>\<open>shrinks tm tm'\<close>: the same keys in the same order, and only parents cleared.\<close>

definition shrinks :: "task_map \<Rightarrow> task_map \<Rightarrow> bool" where
  "shrinks tm tm' =
     (map fst tm' = map fst tm
      \<and> (\<forall>u t'. map_of tm' u = Some t' \<longrightarrow>
            (\<exists>t. map_of tm u = Some t \<and> (t' = t \<or> t' = t\<lparr>parent_uid := PNone\<rparr>))))"

text \<open>The two parts of \<open>settled\<close>, for one key.\<close>

definition resolved_at :: "task_map \<Rightarrow> pyval \<Rightarrow> bool" where
  "resolved_at tm k =
     (\<forall>t. map_of tm k = Some t \<and> truthy (parent_uid t) \<longrightarrow> map_of tm (parent_uid t) \<noteq> None)"

definition acyclic_at :: "task_map \<Rightarrow> pyval \<Rightarrow> bool" where
  "acyclic_at tm k =
     (\<forall>t. map_of tm k = Some t \<and> truthy (parent_uid t) \<longrightarrow> (k, k) \<notin> (parent_edges tm)\<^sup>+)"

text \<open>A decoded record with the given uid and parent, and a batch of such records.\<close>

definition record_of :: "string \<Rightarrow> pyval \<Rightarrow> task_data" where
  "record_of u p =
     \<lparr> uid = PStr u, summary = PStr ''Untitled Task'', description = PNone, due = PNone,
       created = PNone, completed_at = PNone, priority = PNone, percent_complete = PInt 0,
       completed = False, parent_uid = p \<rparr>"

definition batch_of :: "(string \<times> pyval) list \<Rightarrow> task_map" where
  "batch_of ps = map (\<lambda>(u, p). (PStr u, record_of u p)) ps"

section \<open>Encoding\<close>

text \<open>
  What the encoder takes from the datetime library: \<open>astimezone(timezone.utc)\<close>,
  \<open>datetime.fromisoformat\<close> (\<open>None\<close> when it raises) and \<open>str\<close> of a datetime.
\<close>

record datelib =
  astimezone_utc :: "pydatetime \<Rightarrow> tz_outcome"
  fromisoformat :: "string \<Rightarrow> pydatetime option"
  str_datetime :: "pydatetime \<Rightarrow> string"

text \<open>\<open>str(x)\<close>: an integer prints in decimal.\<close>

definition digit_char :: "nat \<Rightarrow> char" where
  "digit_char n = ''0123456789'' ! n"

fun str_nat :: "nat \<Rightarrow> string" where
  "str_nat n =
     (if n < 10 then [digit_char n] else str_nat (n div 10) @ [digit_char (n mod 10)])"

definition str_int :: "int \<Rightarrow> string" where
  "str_int i = (if i < 0 then CHR ''-'' # str_nat (nat (- i)) else str_nat (nat i))"

fun py_str :: "datelib \<Rightarrow> pyval \<Rightarrow> string" where
  "py_str lib PNone = ''None''"
| "py_str lib (PInt i) = str_int i"
| "py_str lib (PStr s) = s"
| "py_str lib (PDateTime d) = str_datetime lib d"

text \<open>The component's lines: assignment to the first line of a name, \<open>add\<close>, \<open>remove\<close>.\<close>

fun set_first :: "vline list \<Rightarrow> string \<Rightarrow> pyval \<Rightarrow> vline list" where
  "set_first [] n v = []"
| "set_first ((n', v') # ls) n v = (if n' = n then (n, v) # ls else (n', v') # set_first ls n v)"

definition add_line :: "vline list \<Rightarrow> string \<Rightarrow> pyval \<Rightarrow> vline list" where
  "add_line ls n v = ls @ [(n, v)]"

definition set_or_add :: "vline list \<Rightarrow> string \<Rightarrow> pyval \<Rightarrow> vline list" where
  "set_or_add ls n v = (if hasattr ls n then set_first ls n v else add_line ls n v)"

text \<open>\<open>if hasattr(vtodo, n): vtodo.remove(vtodo.n)\<close>: the first line of that name goes.\<close>

definition remove_attr :: "vline list \<Rightarrow> string \<Rightarrow> vline list" where
  "remove_attr ls n = (case getattr ls n of None \<Rightarrow> ls | Some v \<Rightarrow> remove1 (n, v) ls)"

text \<open>The loop that removes every line of a name.\<close>

definition remove_all :: "vline list \<Rightarrow> string \<Rightarrow> vline list" where
  "remove_all ls n = filter (\<lambda>l. fst l \<noteq> n) ls"

text \<open>The values of the lines of a name, in order (\<open>getattr\<close> is the first of them).\<close>

definition values_of :: "vline list \<Rightarrow> string \<Rightarrow> pyval list" where
  "values_of ls n = map snd (filter (\<lambda>l. fst l = n) ls)"

subsection \<open>\<open>_normalize_date_value\<close>\<close>

definition replace_Z :: "string \<Rightarrow> string" where
  "replace_Z s = concat (map (\<lambda>c. if c = CHR ''Z'' then ''+00:00'' else [c]) s)"

definition to_utc :: "datelib \<Rightarrow> pydatetime \<Rightarrow> pyval" where
  "to_utc lib d =
     (case d of
        Naive w \<Rightarrow> PDateTime (Aware w 0)
      | Aware w off \<Rightarrow>
          (case astimezone_utc lib d of Converted d' \<Rightarrow> PDateTime d' | _ \<Rightarrow> PNone))"

fun normalize_date_value :: "datelib \<Rightarrow> pyval \<Rightarrow> pyval" where
  "normalize_date_value lib PNone = PNone"
| "normalize_date_value lib (PDateTime d) = to_utc lib d"
| "normalize_date_value lib (PInt i) =
     (if 0 \<le> i \<and> i \<le> 2147483647 then PDateTime (Aware i 0) else PNone)"
| "normalize_date_value lib (PStr s) =
     (case fromisoformat lib (if CHR ''Z'' \<in> set s then replace_Z s else s) of
        None \<Rightarrow> PNone
      | Some (Naive w) \<Rightarrow>
          (case astimezone_utc lib (Aware w 0) of Converted d' \<Rightarrow> PDateTime d' | _ \<Rightarrow> PNone)
      | Some (Aware w off) \<Rightarrow>
          (case astimezone_utc lib (Aware w off) of Converted d' \<Rightarrow> PDateTime d' | _ \<Rightarrow> PNone))"

text \<open>\<open>dt.replace(tzinfo=None)\<close>.\<close>

fun strip_tz :: "pydatetime \<Rightarrow> pydatetime" where
  "strip_tz (Naive w) = Naive w"
| "strip_tz (Aware w off) = Naive w"

subsection \<open>\<open>_create_vtodo\<close>\<close>

text \<open>The nested \<open>format_datetime_for_vtodo\<close>.\<close>

definition format_datetime_for_vtodo :: "datelib \<Rightarrow> pyval \<Rightarrow> pyval" where
  "format_datetime_for_vtodo lib dt =
     (case dt of
        PNone \<Rightarrow> PNone
      | PInt i \<Rightarrow> PNone
      | _ \<Rightarrow> (case normalize_date_value lib dt of
                 PDateTime d \<Rightarrow> PDateTime (strip_tz d)
               | _ \<Rightarrow> PNone))"

text \<open>The priority as \<open>_create_vtodo\<close> coerces it.\<close>

definition create_priority :: "pyval \<Rightarrow> pyval" where
  "create_priority p =
     (if p \<noteq> PNone then
        (case py_int p of
           Inr i \<Rightarrow> if \<not> (1 \<le> i \<and> i \<le> 9) then PInt (max 1 (min 9 i)) else PInt i
         | Inl e \<Rightarrow> PNone)
      else p)"

definition create_due :: "pyval \<Rightarrow> pyval" where
  "create_due d =
     (case d of
        PInt i \<Rightarrow> if 0 < i \<and> i < 2147483647 then PDateTime (Aware i 0) else PNone
      | _ \<Rightarrow> d)"

text \<open>
  \<open>_create_vtodo\<close>, with its arguments at their annotated types. The result is the
  VTODO component on which the source calls \<open>serialize()\<close> (the serializer is the
  library's), or \<open>Inl\<close> for the \<open>ValueError\<close>.
\<close>

definition create_vtodo ::
  "datelib \<Rightarrow> string \<Rightarrow> int \<Rightarrow> string \<Rightarrow> string \<Rightarrow> string option \<Rightarrow> string option \<Rightarrow> pyval \<Rightarrow> pyval
     \<Rightarrow> string + vline list" where
  "create_vtodo lib fresh_uid now summ u parent descr due_v prio =
     (if summ = [] \<or> strip summ = [] then Inl ''Task summary cannot be empty''
      else
        (let u' = (if u = [] then fresh_uid else u);
             prio' = create_priority prio;
             due' = create_due due_v;
             ls0 = [(''UID'', PStr u'), (''SUMMARY'', PStr (strip summ)),
                    (''DTSTAMP'', PDateTime (Naive now)), (''CREATED'', PDateTime (Naive now)),
                    (''STATUS'', PStr ''NEEDS-ACTION'')];
             ls1 = (case parent of
                      Some pu \<Rightarrow> if pu \<noteq> [] then add_line ls0 ''RELATED-TO'' (PStr pu) else ls0
                    | None \<Rightarrow> ls0);
             ls2 = (case descr of
                      Some d \<Rightarrow> if d \<noteq> [] \<and> strip d \<noteq> []
                                then add_line ls1 ''DESCRIPTION'' (PStr (strip d)) else ls1
                    | None \<Rightarrow> ls1);
             ls3 = (if truthy due'
                    then (let due_formatted = format_datetime_for_vtodo lib due'
                          in if truthy due_formatted then add_line ls2 ''DUE'' due_formatted
                             else ls2)
                    else ls2);
             ls4 = (case prio' of
                      PNone \<Rightarrow> ls3
                    | PInt i \<Rightarrow> add_line ls3 ''PRIORITY'' (PInt i)
                    | _ \<Rightarrow> ls3)
         in Inr ls4))"

subsection \<open>\<open>_validate_and_fix_vtodo_properties\<close> and \<open>_set_priority_safely\<close>\<close>

datatype fix_action = Untouched | Remove | Update pyval

definition integer_properties :: "string set" where
  "integer_properties = {''PRIORITY'', ''PERCENT-COMPLETE'', ''SEQUENCE''}"

definition datetime_properties :: "string set" where
  "datetime_properties =
     {''DUE'', ''DTSTART'', ''DTEND'', ''CREATED'', ''DTSTAMP'', ''COMPLETED'', ''LAST-MODIFIED''}"

text \<open>What the first loop records for one line.\<close>

definition property_fix :: "datelib \<Rightarrow> vline \<Rightarrow> fix_action" where
  "property_fix lib l =
     (case l of (prop_name, v) \<Rightarrow>
        if v = PNone then Remove
        else if prop_name \<in> integer_properties then
          (case v of
             PInt i \<Rightarrow> Update (PStr (str_int i))
           | PStr s \<Rightarrow> Untouched
           | _ \<Rightarrow> Remove)
        else if prop_name \<in> datetime_properties then
          (case v of PDateTime d \<Rightarrow> Untouched | _ \<Rightarrow> Remove)
        else
          (case v of PStr s \<Rightarrow> Untouched | _ \<Rightarrow> Update (PStr (py_str lib v))))"

text \<open>The second loop applies the fixes; the result tells whether there was one.\<close>

fun apply_fixes :: "datelib \<Rightarrow> vline list \<Rightarrow> vline list" where
  "apply_fixes lib [] = []"
| "apply_fixes lib (l # ls) =
     (case property_fix lib l of
        Untouched \<Rightarrow> l # apply_fixes lib ls
      | Remove \<Rightarrow> apply_fixes lib ls
      | Update v \<Rightarrow> (fst l, v) # apply_fixes lib ls)"

definition validate_and_fix_vtodo_properties :: "datelib \<Rightarrow> vline list \<Rightarrow> vline list \<times> bool" where
  "validate_and_fix_vtodo_properties lib ls =
     (apply_fixes lib ls, \<exists>l \<in> set ls. property_fix lib l \<noteq> Untouched)"

definition set_priority_safely :: "vline list \<Rightarrow> pyval \<Rightarrow> vline list" where
  "set_priority_safely ls priority_value =
     (if priority_value = PNone then remove_attr ls ''PRIORITY''
      else
        (case py_int priority_value of
           Inl e \<Rightarrow> ls
         | Inr i \<Rightarrow>
             add_line (remove_attr ls ''PRIORITY'') ''PRIORITY''
               (PStr (str_int (max 1 (min 9 i))))))"

subsection \<open>The client's \<open>update_task\<close>\<close>

text \<open>
  The steps of the function, each on the lines of the VTODO and the flag \<open>changed\<close>.
  The due date is in UTC when \<open>_normalize_date_value\<close> returns it, so the second
  \<open>astimezone\<close> of the source leaves it as it is.
\<close>

definition update_summary :: "datelib \<Rightarrow> pyval \<Rightarrow> vline list \<times> bool \<Rightarrow> vline list \<times> bool" where
  "update_summary lib summ st =
     (if summ \<noteq> PNone
      then (set_or_add (fst st) ''SUMMARY'' (PStr (strip (py_str lib summ))), True)
      else st)"

definition update_description :: "datelib \<Rightarrow> pyval \<Rightarrow> vline list \<times> bool \<Rightarrow> vline list \<times> bool" where
  "update_description lib descr st =
     (if descr \<noteq> PNone then
        (let description_str = (if truthy descr then strip (py_str lib descr) else [])
         in if hasattr (fst st) ''DESCRIPTION''
            then (if description_str \<noteq> []
                  then (set_first (fst st) ''DESCRIPTION'' (PStr description_str), True)
                  else (remove_attr (fst st) ''DESCRIPTION'', True))
            else (if description_str \<noteq> []
                  then (add_line (fst st) ''DESCRIPTION'' (PStr description_str), True)
                  else (fst st, True)))
      else st)"

definition update_parent :: "datelib \<Rightarrow> pyval \<Rightarrow> vline list \<times> bool \<Rightarrow> vline list \<times> bool" where
  "update_parent lib parent st =
     (if parent \<noteq> PNone then
        (let ls = remove_attr (fst st) ''RELATED-TO''
         in (if truthy parent then add_line ls ''RELATED-TO'' (PStr (py_str lib parent)) else ls,
             True))
      else st)"

definition update_due :: "datelib \<Rightarrow> pyval \<Rightarrow> vline list \<times> bool \<Rightarrow> vline list \<times> bool" where
  "update_due lib due_v st =
     (if due_v \<noteq> PNone then
        (case normalize_date_value lib due_v of
           PDateTime d \<Rightarrow> (set_or_add (fst st) ''DUE'' (PDateTime (strip_tz d)), True)
         | _ \<Rightarrow> st)
      else st)"

definition update_priority :: "pyval \<Rightarrow> vline list \<times> bool \<Rightarrow> vline list \<times> bool" where
  "update_priority prio st =
     (if prio \<noteq> PNone then (set_priority_safely (fst st) prio, True) else st)"

definition update_completed :: "int \<Rightarrow> bool option \<Rightarrow> vline list \<times> bool \<Rightarrow> vline list \<times> bool" where
  "update_completed now compl st =
     (case compl of
        None \<Rightarrow> st
      | Some c \<Rightarrow>
          (let ls1 = set_or_add (fst st) ''STATUS''
                       (PStr (if c then ''COMPLETED'' else ''NEEDS-ACTION''))
           in if c
              then (add_line
                      (remove_all (set_or_add ls1 ''COMPLETED'' (PDateTime (Naive now)))
                         ''PERCENT-COMPLETE'')
                      ''PERCENT-COMPLETE'' (PStr ''100''), True)
              else (add_line
                      (remove_all (remove_attr ls1 ''COMPLETED'') ''PERCENT-COMPLETE'')
                      ''PERCENT-COMPLETE'' (PStr ''0''), True)))"

text \<open>
  All the steps, then the last-modified stamp and the validation pass when something
  changed: the lines on which the source calls \<open>serialize()\<close>, or \<open>None\<close> when
  nothing changed and nothing is saved.
\<close>

definition update_vtodo_lines ::
  "datelib \<Rightarrow> int \<Rightarrow> pyval \<Rightarrow> pyval \<Rightarrow> pyval \<Rightarrow> pyval \<Rightarrow> pyval \<Rightarrow> bool option \<Rightarrow> vline list
     \<Rightarrow> vline list option" where
  "update_vtodo_lines lib now summ descr due_v prio parent compl ls =
     (let st = update_completed now compl
                 (update_priority prio
                    (update_due lib due_v
                       (update_parent lib parent
                          (update_description lib descr
                             (update_summary lib summ (ls, False))))))
      in if snd st
         then Some (fst (validate_and_fix_vtodo_properties lib
                           (set_or_add (fst st) ''LAST-MODIFIED'' (PDateTime (Naive now)))))
         else None)"

text \<open>
  \<open>vcal.vtodo\<close> is the first VTODO component of the calendar; the updated calendar has
  the new lines in its place.
\<close>

fun replace_vtodo :: "vcomponent list \<Rightarrow> vline list \<Rightarrow> vcomponent list" where
  "replace_vtodo [] ls = []"
| "replace_vtodo (c # cs) ls =
     (if fst c = ''VTODO'' then (fst c, ls) # cs else c # replace_vtodo cs ls)"

text \<open>
  The serializer of the iCalendar library and the \<open>save\<close> of the remote object are
  outside the repository: parameters. \<open>serialize\<close> validates the calendar it is given
  and returns its text or raises; \<open>save\<close> sends the text or raises. The type \<open>'d\<close> is
  that of the text.
\<close>

record 'd wirelib =
  serialize :: "vcomponent list \<Rightarrow> 'd outcome"
  save :: "'d \<Rightarrow> unit outcome"

text \<open>
  The client's \<open>update_task\<close>. \<open>Inl\<close> when it raises: no remote object was found, the
  parser raised, there is no VTODO component, or \<open>serialize()\<close> or \<open>save()\<close> raised (the
  inner handler wraps that exception and the outer handler wraps it again). Else the
  calendar it serialized with the text it saved, or \<open>None\<close> when nothing changed and it
  saves nothing.
\<close>

definition client_update_task ::
  "datelib \<Rightarrow> 'd wirelib \<Rightarrow> int \<Rightarrow> wire option \<Rightarrow> pyval \<Rightarrow> pyval \<Rightarrow> pyval \<Rightarrow> pyval \<Rightarrow> pyval
     \<Rightarrow> bool option \<Rightarrow> string + (vcomponent list \<times> 'd) option" where
  "client_update_task lib w now todo summ descr due_v prio parent compl =
     (case todo of
        None \<Rightarrow> Inl ''Task update failed''
      | Some Garbled \<Rightarrow> Inl ''Task update failed''
      | Some (ICal comps) \<Rightarrow>
          (case find (\<lambda>c. fst c = ''VTODO'') comps of
             None \<Rightarrow> Inl ''Task update failed''
           | Some vtodo \<Rightarrow>
               (case update_vtodo_lines lib now summ descr due_v prio parent compl
                       (snd vtodo) of
                  None \<Rightarrow> Inr None
                | Some ls' \<Rightarrow>
                    (case serialize w (replace_vtodo comps ls') of
                       Raise x \<Rightarrow>
                         Inl (''Task update failed: Failed to serialize updated task: '' @ x)
                     | Return data \<Rightarrow>
                         (case save w data of
                            Raise x \<Rightarrow>
                              Inl (''Task update failed: Failed to serialize updated task: ''
                                   @ x)
                          | Return _ \<Rightarrow> Inr (Some (replace_vtodo comps ls', data)))))))"

text \<open>
  A serializer that validates a VTODO as the iCalendar format has it: each of these
  properties occurs once at most, else it raises. Its text is the calendar itself. The
  save succeeds.
\<close>

definition once_only_properties :: "string list" where
  "once_only_properties =
     [''CLASS'', ''COMPLETED'', ''CREATED'', ''DESCRIPTION'', ''DTSTAMP'', ''DTSTART'',
      ''DUE'', ''GEO'', ''LAST-MODIFIED'', ''LOCATION'', ''ORGANIZER'', ''PERCENT-COMPLETE'',
      ''PRIORITY'', ''SEQUENCE'', ''STATUS'', ''SUMMARY'', ''UID'', ''URL'']"

definition valid_component :: "vcomponent \<Rightarrow> bool" where
  "valid_component c =
     (if fst c = ''VTODO''
      then list_all (\<lambda>n. length (filter (\<lambda>l. fst l = n) (snd c)) \<le> 1) once_only_properties
      else True)"

definition strict_wirelib :: "(vcomponent list) wirelib" where
  "strict_wirelib =
     \<lparr> serialize = (\<lambda>cal. if list_all valid_component cal then Return cal
                           else Raise ''ValidateError''),
       save = (\<lambda>d. Return ()) \<rparr>"

text \<open>What the validation pass leaves of one value of a line named \<open>n\<close>.\<close>

definition fixed_values :: "datelib \<Rightarrow> string \<Rightarrow> pyval \<Rightarrow> pyval list" where
  "fixed_values lib n v =
     (case property_fix lib (n, v) of Untouched \<Rightarrow> [v] | Remove \<Rightarrow> [] | Update w \<Rightarrow> [w])"

text \<open>A datetime library that treats every datetime as UTC and parses nothing.\<close>

definition sample_lib :: datelib where
  "sample_lib =
     \<lparr> astimezone_utc = Converted, fromisoformat = (\<lambda>s. None), str_datetime = (\<lambda>d. ''datetime'') \<rparr>"

section \<open>Pull: \<open>get_all_tasks\<close> and \<open>sync_tasks_to_db\<close>\<close>

text \<open>
  \<open>get_all_tasks\<close>: the loop over the fetched records, with \<open>task_dicts\<close> and
  \<open>parse_errors\<close>. \<open>uuid4 i\<close> is the uuid drawn while record \<open>i\<close> is decoded.
  The function returns \<open>task_dicts\<close>; \<open>parse_errors\<close> goes to the log only.
\<close>

fun get_all_tasks_loop ::
  "(pydatetime \<Rightarrow> tz_outcome) \<Rightarrow> (nat \<Rightarrow> string) \<Rightarrow> nat \<Rightarrow> wire list \<Rightarrow> task_data list \<times> nat
     \<Rightarrow> task_data list \<times> nat" where
  "get_all_tasks_loop astimezone uuid4 i [] st = st"
| "get_all_tasks_loop astimezone uuid4 i (todo # todos) (task_dicts, parse_errors) =
     (case parse_vtodo_safely astimezone (uuid4 i) todo of
        Some td \<Rightarrow>
          get_all_tasks_loop astimezone uuid4 (i + 1) todos (task_dicts @ [td], parse_errors)
      | None \<Rightarrow>
          get_all_tasks_loop astimezone uuid4 (i + 1) todos (task_dicts, parse_errors + 1))"

text \<open>\<open>remote_todos\<close> is what fetching the calendar's records gives: the list, or an exception.\<close>

definition get_all_tasks ::
  "(pydatetime \<Rightarrow> tz_outcome) \<Rightarrow> (nat \<Rightarrow> string) \<Rightarrow> wire list outcome \<Rightarrow> string + task_data list" where
  "get_all_tasks astimezone uuid4 remote_todos =
     (case remote_todos of
        Raise x \<Rightarrow> Inl ''Failed to retrieve tasks''
      | Return todos \<Rightarrow> Inr (fst (get_all_tasks_loop astimezone uuid4 0 todos ([], 0))))"

definition parse_errors_logged ::
  "(pydatetime \<Rightarrow> tz_outcome) \<Rightarrow> (nat \<Rightarrow> string) \<Rightarrow> wire list \<Rightarrow> nat" where
  "parse_errors_logged astimezone uuid4 todos =
     snd (get_all_tasks_loop astimezone uuid4 0 todos ([], 0))"

text \<open>
  The dictionary comprehension \<open>{task['uid']: task for task in tasks_from_caldav}\<close>: a
  later record with the uid of an earlier one takes its place.
\<close>

fun dict_set :: "task_map \<Rightarrow> pyval \<Rightarrow> task_data \<Rightarrow> task_map" where
  "dict_set [] k v = [(k, v)]"
| "dict_set ((k', v') # tm) k v = (if k' = k then (k', v) # tm else (k', v') # dict_set tm k v)"

definition build_task_map :: "task_data list \<Rightarrow> task_map" where
  "build_task_map tds = foldl (\<lambda>tm td. dict_set tm (uid td) td) [] tds"

text \<open>The statistics \<open>sync_stats\<close> (keys \<open>created\<close>, \<open>updated\<close>, \<open>errors\<close> with a prefix).\<close>

record sync_stats =
  total_fetched :: nat
  stat_created :: nat
  stat_updated :: nat
  stat_errors :: nat
  hierarchy_fixes :: nat

text \<open>\<open>Task(uid=task_data['uid'], calendar_url=calendar_url)\<close>: no summary yet.\<close>

definition fresh_row :: "env \<Rightarrow> pyval \<Rightarrow> pyval \<Rightarrow> Task" where
  "fresh_row e u cal =
     \<lparr> Task.uid = validate_uid (e_uuid4 e) u, Task.summary = PNone, Task.completed = False,
       Task.parent_uid = PNone, calendar_url = cal, Task.due = PNone, updated = e_now e,
       Task.completed_at = PNone, Task.priority = PNone, Task.description = PNone,
       tags = PNone, estimated_duration = PNone, is_synced = True, operation = None,
       last_sync = None, sync_attempts = 0 \<rparr>"

text \<open>
  The assignments to the row, up to \<open>mark_synced\<close>. A validator that raises ends them;
  the row keeps what was assigned before, and the flag tells the handler \<open>except\<close> ran.
\<close>

definition assign_fields :: "env \<Rightarrow> task_data \<Rightarrow> Task \<Rightarrow> Task \<times> bool" where
  "assign_fields e td t =
     (case validate_summary (summary td) of
        Inl msg \<Rightarrow> (t, False)
      | Inr summ \<Rightarrow>
          (let t1 = t\<lparr>Task.summary := summ, Task.completed := completed td,
                      Task.parent_uid := parent_uid td, Task.description := description td,
                      Task.due := due td\<rparr>
           in case validate_priority (priority td) of
                Inl msg \<Rightarrow> (t1, False)
              | Inr prio \<Rightarrow>
                  (let t2 = t1\<lparr>Task.priority := prio\<rparr>;
                       t3 = (if completed td \<and> truthy (completed_at td)
                             then t2\<lparr>Task.completed_at := completed_at td\<rparr>
                             else if \<not> completed td then t2\<lparr>Task.completed_at := PNone\<rparr>
                             else t2)
                   in (mark_synced (e_now e) t3, True))))"

text \<open>The loop over the validated map, with the session and the statistics.\<close>

fun sync_loop :: "env \<Rightarrow> pyval \<Rightarrow> task_data list \<Rightarrow> session \<times> sync_stats \<Rightarrow> session \<times> sync_stats" where
  "sync_loop e cal [] st = st"
| "sync_loop e cal (td # tds) (s, stats) =
     (let (s1, db_task, stats1) =
            (case query_task s (uid td) cal of
               None \<Rightarrow> (add_task s (fresh_row e (uid td) cal), fresh_row e (uid td) cal,
                         stats\<lparr>stat_created := stat_created stats + 1\<rparr>)
             | Some t \<Rightarrow> (s, t, stats\<lparr>stat_updated := stat_updated stats + 1\<rparr>));
          (t', ok) = assign_fields e td db_task
      in sync_loop e cal tds
           (store_task s1 (Task.uid db_task) cal t',
            if ok then stats1 else stats1\<lparr>stat_errors := stat_errors stats1 + 1\<rparr>))"

text \<open>
  The commit writes the new rows; a row whose summary was never assigned violates the
  column's NOT NULL constraint, the commit raises, and the outer handler rolls back
  and raises.
\<close>

definition flush_ok :: "session \<Rightarrow> bool" where
  "flush_ok s = list_all (\<lambda>t. Task.summary t \<noteq> PNone) (tasks (pending s))"

definition sync_tasks_to_db ::
  "(pydatetime \<Rightarrow> tz_outcome) \<Rightarrow> (nat \<Rightarrow> string) \<Rightarrow> env \<Rightarrow> wire list outcome \<Rightarrow> pyval \<Rightarrow> session
     \<Rightarrow> (string + nat \<times> sync_stats) \<times> session" where
  "sync_tasks_to_db astimezone uuid4 e remote_todos cal s =
     (case get_all_tasks astimezone uuid4 remote_todos of
        Inl x \<Rightarrow> (Inl ''Synchronization failed'', rollback s)
      | Inr tasks_from_caldav \<Rightarrow>
          (let stats0 = \<lparr> total_fetched = length tasks_from_caldav, stat_created = 0,
                          stat_updated = 0, stat_errors = 0, hierarchy_fixes = 0 \<rparr>
           in if tasks_from_caldav = [] then (Inr (0, stats0), s)
              else
                (let task_map = validate_task_hierarchy (build_task_map tasks_from_caldav);
                     (s', stats) = sync_loop e cal (map snd task_map) (s, stats0)
                 in if flush_ok s'
                    then (Inr (stat_created stats + stat_updated stats, stats), commit s')
                    else (Inl ''Synchronization failed'', rollback s'))))"

text \<open>A record the model's validators refuse.\<close>

definition rejected :: "task_data \<Rightarrow> bool" where
  "rejected td = (isl (validate_summary (summary td)) \<or> isl (validate_priority (priority td)))"

section \<open>The retry policy: \<open>retry_on_failure\<close>\<close>

text \<open>
  The wrapped function is a remote call: what its invocations do is a function of how
  many came before (\<open>func n\<close> is the outcome of invocation \<open>n\<close>, counted from 0). An
  invocation returns, raises one of the three exceptions the wrapper retries on
  (\<open>ConnectionError\<close>, \<open>TimeoutError\<close>, \<open>PropfindError\<close>) or raises something else.
  The wrapper's effects are kept beside its result: the number of invocations made and
  the arguments of \<open>time.sleep\<close>, in order. The delay is a real number.
\<close>

datatype 'a call_outcome = Returns 'a | RaisesTransient string | RaisesOther string

datatype retry_error = Reraised string | CalDAVConnectionError "string option"

text \<open>The loop \<open>for attempt in range(max_retries)\<close>, over the attempts still to run.\<close>

fun retry_attempts ::
  "int \<Rightarrow> real \<Rightarrow> (nat \<Rightarrow> 'a call_outcome) \<Rightarrow> nat list \<Rightarrow> string option \<Rightarrow> nat \<Rightarrow> real list
     \<Rightarrow> (retry_error + 'a) \<times> nat \<times> real list" where
  "retry_attempts max_retries delay func [] last_exception calls sleeps =
     (Inl (CalDAVConnectionError last_exception), calls, sleeps)"
| "retry_attempts max_retries delay func (attempt # rest) last_exception calls sleeps =
     (case func calls of
        Returns v \<Rightarrow> (Inr v, calls + 1, sleeps)
      | RaisesTransient e \<Rightarrow>
          if int attempt < max_retries - 1
          then retry_attempts max_retries delay func rest (Some e) (calls + 1)
                 (sleeps @ [delay * 2 ^ attempt])
          else retry_attempts max_retries delay func rest (Some e) (calls + 1) sleeps
      | RaisesOther e \<Rightarrow> (Inl (Reraised e), calls + 1, sleeps))"

definition retry_on_failure ::
  "int \<Rightarrow> real \<Rightarrow> (nat \<Rightarrow> 'a call_outcome) \<Rightarrow> (retry_error + 'a) \<times> nat \<times> real list" where
  "retry_on_failure max_retries delay func =
     retry_attempts max_retries delay func [0..<nat max_retries] None 0 []"

definition is_transient :: "'a call_outcome \<Rightarrow> bool" where
  "is_transient r = (case r of RaisesTransient e \<Rightarrow> True | _ \<Rightarrow> False)"

text \<open>A remote call that times out twice and then answers.\<close>

definition fails_twice :: "nat \<Rightarrow> string call_outcome" where
  "fails_twice n = (if n < 2 then RaisesTransient ''timeout'' else Returns ''ok'')"

section \<open>Decoding: priority\<close>

lemma int_of_str_15: "int_of_str ''15'' = Some 15"
  by (simp add: int_of_str_def strip_def is_space_def py_unsigned_def is_digit_def digit_val_def)

lemma int_of_str_0: "int_of_str ''0'' = Some 0"
  by (simp add: int_of_str_def strip_def is_space_def py_unsigned_def is_digit_def digit_val_def)

lemma int_of_str_abc: "int_of_str ''abc'' = None"
  by (simp add: int_of_str_def strip_def is_space_def py_unsigned_def is_digit_def)

lemma decode_priority_int: "py_int v = Inr i \<Longrightarrow> decode_priority v = PInt (max 1 (min 9 i))"
  by (cases v) (auto simp: decode_priority_def)

lemma decode_priority_error: "py_int v = Inl e \<Longrightarrow> decode_priority v = PNone"
  by (cases v) (auto simp: decode_priority_def)

lemma parse_vtodo_safely_priority:
  assumes "find (\<lambda>c. fst c = ''VTODO'') comps = Some (nm, ls)"
      and "parse_vtodo_safely astimezone fresh_uid (ICal comps) = Some td"
  shows "priority td = decode_priority (safe_get_value ls ''PRIORITY'' PNone)"
  using assms by (auto simp: parse_vtodo_safely_def Let_def split: option.splits)

text \<open>
  C3 (as the code has it). In every decoded record the priority is that of the first
  PRIORITY line of the VTODO component, coerced by \<open>int\<close> and clamped into 1..9:
  15 gives 9, a value that does not coerce, such as \<open>abc\<close>, gives an absent priority,
  and no PRIORITY line gives an absent priority. A value below the range is clamped
  too: 0 gives 1, not an absent priority.
\<close>

theorem decode_priority_clamps:
  assumes "find (\<lambda>c. fst c = ''VTODO'') comps = Some (nm, ls)"
      and "parse_vtodo_safely astimezone fresh_uid (ICal comps) = Some td"
  shows "(getattr ls ''PRIORITY'' = Some (PStr ''15'') \<longrightarrow> priority td = PInt 9)
       \<and> (getattr ls ''PRIORITY'' = Some (PInt 15) \<longrightarrow> priority td = PInt 9)
       \<and> (getattr ls ''PRIORITY'' = Some (PStr ''0'') \<longrightarrow> priority td = PInt 1)
       \<and> (getattr ls ''PRIORITY'' = Some (PInt 0) \<longrightarrow> priority td = PInt 1)
       \<and> (getattr ls ''PRIORITY'' = Some (PStr ''abc'') \<longrightarrow> priority td = PNone)
       \<and> (\<forall>v i. getattr ls ''PRIORITY'' = Some v \<and> py_int v = Inr i
             \<longrightarrow> priority td = PInt (max 1 (min 9 i)))
       \<and> (\<forall>v e. getattr ls ''PRIORITY'' = Some v \<and> py_int v = Inl e \<longrightarrow> priority td = PNone)
       \<and> (getattr ls ''PRIORITY'' = None \<longrightarrow> priority td = PNone)"
proof -
  have p: "priority td = decode_priority (safe_get_value ls ''PRIORITY'' PNone)"
    using assms by (rule parse_vtodo_safely_priority)
  have a: "getattr ls ''PRIORITY'' = Some v \<Longrightarrow> py_int v = Inr i
        \<Longrightarrow> priority td = PInt (max 1 (min 9 i))" for v i
    using p by (simp add: safe_get_value_def decode_priority_int)
  have b: "getattr ls ''PRIORITY'' = Some v \<Longrightarrow> py_int v = Inl e \<Longrightarrow> priority td = PNone" for v e
    using p by (simp add: safe_get_value_def decode_priority_error)
  have c: "getattr ls ''PRIORITY'' = None \<Longrightarrow> priority td = PNone"
    using p by (simp add: safe_get_value_def decode_priority_def)
  show ?thesis
    using a [of "PStr ''15''" 15] a [of "PInt 15" 15] a [of "PStr ''0''" 0] a [of "PInt 0" 0]
      b [of "PStr ''abc''" ValueError] a b c
    by (simp add: int_of_str_15 int_of_str_0 int_of_str_abc)
qed

lemma decode_record_with_priority:
  "parse_vtodo_safely astimezone fresh_uid
     (ICal [(''VTODO'', [(''UID'', PStr ''u1''), (''PRIORITY'', v)])]) =
     Some \<lparr> uid = PStr ''u1'', summary = PStr ''Untitled Task'', description = PNone,
            due = PNone, created = PNone, completed_at = PNone,
            priority = decode_priority v, percent_complete = PInt 0,
            completed = False, parent_uid = PNone \<rparr>"
  by (simp add: parse_vtodo_safely_def safe_get_value_def getattr_def)

text \<open>
  The record whose only lines are a UID and PRIORITY 15 decodes, to priority 9.
\<close>

theorem decode_priority_clamps_witness:
  "find (\<lambda>c. fst c = ''VTODO'') [(''VTODO'', [(''UID'', PStr ''u1''), (''PRIORITY'', PStr ''15'')])]
     = Some (''VTODO'', [(''UID'', PStr ''u1''), (''PRIORITY'', PStr ''15'')])
   \<and> parse_vtodo_safely Converted ''f''
        (ICal [(''VTODO'', [(''UID'', PStr ''u1''), (''PRIORITY'', PStr ''15'')])]) =
       Some \<lparr> uid = PStr ''u1'', summary = PStr ''Untitled Task'', description = PNone,
            due = PNone, created = PNone, completed_at = PNone,
            priority = PInt 9, percent_complete = PInt 0,
            completed = False, parent_uid = PNone \<rparr>
   \<and> getattr [(''UID'', PStr ''u1''), (''PRIORITY'', PStr ''15'')] ''PRIORITY'' = Some (PStr ''15'')
   \<and> priority \<lparr> uid = PStr ''u1'', summary = PStr ''Untitled Task'', description = PNone,
            due = PNone, created = PNone, completed_at = PNone,
            priority = PInt 9, percent_complete = PInt 0,
            completed = False, parent_uid = PNone \<rparr> = PInt 9"
proof -
  have f: "find (\<lambda>c. fst c = ''VTODO'') [(''VTODO'', [(''UID'', PStr ''u1''), (''PRIORITY'', PStr ''15'')])]
     = Some (''VTODO'', [(''UID'', PStr ''u1''), (''PRIORITY'', PStr ''15'')])"
    by simp
  have d: "parse_vtodo_safely Converted ''f''
        (ICal [(''VTODO'', [(''UID'', PStr ''u1''), (''PRIORITY'', PStr ''15'')])]) =
       Some \<lparr> uid = PStr ''u1'', summary = PStr ''Untitled Task'', description = PNone,
            due = PNone, created = PNone, completed_at = PNone,
            priority = PInt 9, percent_complete = PInt 0,
            completed = False, parent_uid = PNone \<rparr>"
    using decode_record_with_priority [of Converted "''f''" "PStr ''15''"]
    by (simp add: decode_priority_def int_of_str_15)
  have g: "getattr [(''UID'', PStr ''u1''), (''PRIORITY'', PStr ''15'')] ''PRIORITY'' = Some (PStr ''15'')"
    by (simp add: getattr_def)
  from decode_priority_clamps [OF f d] g d f show ?thesis
    by simp
qed

text \<open>
  The claim as the specification words it fails: the record with PRIORITY 0 decodes to
  priority 1, which is not an absent priority.
\<close>

theorem decode_priority_zero_counterexample:
  "map_option priority
     (parse_vtodo_safely Converted ''f''
        (ICal [(''VTODO'', [(''UID'', PStr ''u1''), (''PRIORITY'', PStr ''0'')])]))
     = Some (PInt 1)"
  by (simp add: decode_record_with_priority decode_priority_def int_of_str_0)

section \<open>Sync state after a local edit\<close>

text \<open>
  The second half of the claim. A local edit that changed something and did not reach
  the remote (the client is absent, the remote object is not found, or the remote update
  raises) ends with the row unsynced, its pending operation \<open>update\<close> and its attempt
  counter 0.
\<close>

lemma failed_edit_marks_update:
  assumes "changed"
      and "client = None
           \<or> (\<exists>c. client = Some c
                \<and> (r_get_task_by_uid c u = Return False
                    \<or> (r_get_task_by_uid c u = Return True \<and> (\<exists>x. r_update_task c task = Raise x))))"
  shows "fst (update_task_sync e client cal u task changed s) = Response 200 ''Task updated''
       \<and> tasks (durable (snd (update_task_sync e client cal u task changed s)))
         = map (\<lambda>t. if Task.uid t = u \<and> calendar_url t = cal
                     then task\<lparr>is_synced := False, operation := Some ''update'',
                               sync_attempts := 0, updated := e_now e\<rparr>
                     else t) (tasks (pending s))"
  using assms
  by (cases client)
     (auto simp: update_task_sync_def handle_caldav_error_def commit_def store_task_def
        mark_for_sync_def log_sync_operation_def split: outcome.splits prod.splits)

text \<open>
  The handler reads the result of the client's \<open>update_task\<close>, which has no
  \<open>return\<close> statement: an edit whose remote update succeeded is marked unsynced too, and
  the branch that marks the row synced is never taken.
\<close>

lemma successful_edit_left_unsynced:
  "map (\<lambda>t. (is_synced t, operation t))
     (tasks (durable (snd
        (update_task_sync sample_env
           (Some (empty_remote\<lparr>r_get_task_by_uid := (\<lambda>u. Return True)\<rparr>))
           (PStr ''cal'') (PStr ''a'')
           ((pending_row ''a'' None 1)\<lparr>is_synced := True\<rparr>) True
           (session_of [(pending_row ''a'' None 1)\<lparr>is_synced := True\<rparr>])))))
   = [(False, Some ''update'')]"
  by (simp add: update_task_sync_def handle_caldav_error_def session_of_def pending_row_def
      empty_remote_def commit_def store_task_def mark_for_sync_def log_sync_operation_def)

text \<open>
  C2 (the code against the claim). A row created offline (unsynced, pending \<open>create\<close>,
  never sent to the remote) is edited offline: the handler overwrites the pending
  operation with \<open>update\<close>. The next push looks the row up in the remote calendar,
  which never had it, and ends with the exception \<open>not found in remote calendar\<close>: the
  row is not created remotely and stays pending.
\<close>

theorem edited_pending_create_is_pushed_as_update:
  "map (\<lambda>t. (is_synced t, operation t))
     (tasks (durable (snd
        (update_task_sync sample_env None (PStr ''cal'') (PStr ''a'')
           (pending_row ''a'' (Some ''create'') 1) True
           (session_of [pending_row ''a'' (Some ''create'') 1])))))
   = [(False, Some ''update'')]
   \<and> fst (push_pending sample_env (Some empty_remote) (PStr ''cal'')
        (snd (update_task_sync sample_env None (PStr ''cal'') (PStr ''a'')
           (pending_row ''a'' (Some ''create'') 1) True
           (session_of [pending_row ''a'' (Some ''create'') 1]))))
     = Unhandled ''Task not found in remote calendar''
   \<and> map (\<lambda>t. (is_synced t, operation t))
       (tasks (durable (snd (push_pending sample_env (Some empty_remote) (PStr ''cal'')
        (snd (update_task_sync sample_env None (PStr ''cal'') (PStr ''a'')
           (pending_row ''a'' (Some ''create'') 1) True
           (session_of [pending_row ''a'' (Some ''create'') 1])))))))
     = [(False, Some ''update'')]
   \<and> fst (push_pending sample_env (Some empty_remote) (PStr ''cal'')
        (session_of [pending_row ''a'' (Some ''create'') 1]))
     = PushCompleted 1 [] 0"
  by (simp add: update_task_sync_def push_pending_def session_of_def pending_row_def
      empty_remote_def commit_def rollback_def store_task_def mark_for_sync_def Let_def
      push_done_def mark_synced_def log_sync_operation_def)

section \<open>A failure while pushing\<close>

text \<open>
  C1 (the code against the claim). Two rows are pending; the remote object of the first,
  an \<open>update\<close>, is gone. The exception leaves the handler: there is no response with an
  errors list, the second row is not attempted, and the attempt counter of the first
  row is still 0.
\<close>

theorem push_pending_aborts_batch:
  "push_pending sample_env (Some empty_remote) (PStr ''cal'')
     (session_of [pending_row ''a'' (Some ''update'') 1, pending_row ''b'' (Some ''create'') 2])
   = (Unhandled ''Task not found in remote calendar'',
      session_of [pending_row ''a'' (Some ''update'') 1, pending_row ''b'' (Some ''create'') 2])"
  by (simp add: push_pending_def session_of_def pending_row_def empty_remote_def rollback_def
      Let_def)

section \<open>Creating a task with priority 0\<close>

lemma dropWhile_rev_keeps_head:
  assumes "xs \<noteq> []" and "\<not> P (hd xs)"
  shows "rev (dropWhile P (rev xs)) \<noteq> [] \<and> hd (rev (dropWhile P (rev xs))) = hd xs"
proof -
  obtain x t where xs: "xs = x # t" using assms(1) by (cases xs) auto
  with assms(2) have nx: "\<not> P x" by simp
  have "dropWhile P (rev t @ [x]) = dropWhile P (rev t) @ [x]"
    using nx by (simp add: dropWhile_append)
  then show ?thesis using xs by simp
qed

lemma strip_strip: "strip (strip s) = strip s"
proof (cases "dropWhile is_space s")
  case Nil
  show ?thesis unfolding strip_def Nil by simp
next
  case (Cons x t)
  then have nx: "\<not> is_space (hd (dropWhile is_space s))" and ne: "dropWhile is_space s \<noteq> []"
    using hd_dropWhile [of is_space s] by auto
  let ?r = "rev (dropWhile is_space (rev (dropWhile is_space s)))"
  from dropWhile_rev_keeps_head [of "dropWhile is_space s" is_space, OF ne nx]
  have r: "?r \<noteq> []" "hd ?r = hd (dropWhile is_space s)" by auto
  then have "dropWhile is_space ?r = ?r"
    using nx by (cases ?r) auto
  then show ?thesis
    by (simp add: strip_def dropWhile_idem)
qed

lemma request_priority_accepts:
  "py_int p = Inr i \<Longrightarrow> (request_priority p = Go (PInt i)) = (0 \<le> i \<and> i \<le> 9)"
  by (cases p) (auto simp: request_priority_def)

lemma validate_priority_accepts:
  "py_int p = Inr i \<Longrightarrow> (\<exists>v. validate_priority p = Inr v) = (1 \<le> i \<and> i \<le> 9)"
  by (cases p) (auto simp: validate_priority_def)

lemma create_task_checks_go:
  assumes "create_task_checks e data s = Go args"
  shows "\<exists>raw. fst args = PStr (strip raw) \<and> strip raw \<noteq> []"
    and "request_priority (data_get data ''priority'') = Go (snd (snd (snd (snd (snd args)))))"
  using assms
  by (auto simp: create_task_checks_def split: option.splits if_splits pyval.splits step.splits)

lemma validate_summary_stripped:
  "strip raw \<noteq> [] \<Longrightarrow> validate_summary (PStr (strip raw)) = Inr (PStr (strip raw))"
  by (simp add: validate_summary_def strip_strip)

lemma new_task_priority_zero:
  assumes "create_task_checks e data s = Go args"
      and "py_int (data_get data ''priority'') = Inr 0"
  shows "new_task e data args new_uid synced op = Inl ''Priority must be between 1 and 9''"
proof -
  from create_task_checks_go [OF assms(1)] obtain raw where
    a: "fst args = PStr (strip raw)" "strip raw \<noteq> []"
    and p: "request_priority (data_get data ''priority'') = Go (snd (snd (snd (snd (snd args)))))"
    by blast
  from p assms(2) have "snd (snd (snd (snd (snd args)))) = PInt 0"
    using request_priority_accepts [OF assms(2)] by simp
  with a show ?thesis
    by (cases args) (auto simp: new_task_def validate_priority_def validate_summary_stripped)
qed

lemma log_sync_operation_tasks:
  "tasks (durable (log_sync_operation cal op u st err s))
     = (if op = [] then tasks (durable s) else tasks (pending s))"
  by (simp add: log_sync_operation_def commit_def)

text \<open>
  C10. A creation request whose priority coerces to 0 passes the handler's priority check
  (which lets through exactly 0..9), while the model's validator lets through exactly
  1..9. So a request that passes the other checks is answered 500 with the validator's
  message; and whichever check answers, the answer is never 201 and the session (which
  starts with nothing uncommitted) ends with the table of tasks as it was, in what is
  durable and in what is pending.
\<close>

theorem create_task_priority_zero:
  assumes zero: "py_int (data_get data ''priority'') = Inr 0"
      and clean: "pending s = durable s"
  shows "request_priority (data_get data ''priority'') = Go (PInt 0)
       \<and> (\<forall>p i. py_int p = Inr i \<longrightarrow> (request_priority p = Go (PInt i)) = (0 \<le> i \<and> i \<le> 9))
       \<and> validate_priority (PInt 0) = Inl ''Priority must be between 1 and 9''
       \<and> (\<forall>p i. py_int p = Inr i \<longrightarrow> (\<exists>v. validate_priority p = Inr v) = (1 \<le> i \<and> i \<le> 9))
       \<and> (\<forall>args. create_task_checks e data s = Go args \<longrightarrow>
             fst (app_create_task e client data s)
               = Response 500 ''Priority must be between 1 and 9'')
       \<and> fst (app_create_task e client data s) \<noteq> Response 201 ''created''
       \<and> tasks (durable (snd (app_create_task e client data s))) = tasks (durable s)
       \<and> tasks (pending (snd (app_create_task e client data s))) = tasks (durable s)"
proof -
  have a: "request_priority (data_get data ''priority'') = Go (PInt 0)"
    using request_priority_accepts [OF zero] by simp
  have b: "validate_priority (PInt 0) = Inl ''Priority must be between 1 and 9''"
    by (simp add: validate_priority_def)
  have c: "\<forall>p i. py_int p = Inr i \<longrightarrow> (request_priority p = Go (PInt i)) = (0 \<le> i \<and> i \<le> 9)"
    using request_priority_accepts by blast
  have d: "\<forall>p i. py_int p = Inr i \<longrightarrow> (\<exists>v. validate_priority p = Inr v) = (1 \<le> i \<and> i \<le> 9)"
    using validate_priority_accepts by blast
  have rest: "(\<forall>args. create_task_checks e data s = Go args \<longrightarrow>
             fst (app_create_task e client data s)
               = Response 500 ''Priority must be between 1 and 9'')
       \<and> fst (app_create_task e client data s) \<noteq> Response 201 ''created''
       \<and> tasks (durable (snd (app_create_task e client data s))) = tasks (durable s)
       \<and> tasks (pending (snd (app_create_task e client data s))) = tasks (durable s)"
  proof (cases "create_task_checks e data s")
    case (Respond r)
    then have "r \<noteq> Response 201 ''created''"
      by (auto simp: create_task_checks_def request_priority_def
          split: option.splits if_splits pyval.splits step.splits sum.splits pyexc.splits)
    with Respond clean show ?thesis by (simp add: app_create_task_def)
  next
    case (Raised x)
    with clean show ?thesis by (simp add: app_create_task_def rollback_def)
  next
    case (Go args)
    note nt = new_task_priority_zero [OF Go zero]
    show ?thesis
    proof (cases client)
      case None
      with Go nt clean show ?thesis
        by (simp add: app_create_task_def rollback_def)
    next
      case (Some c)
      with Go nt clean show ?thesis
        by (auto simp: app_create_task_def rollback_def Let_def handle_caldav_error_def
            log_sync_operation_tasks split: outcome.splits prod.splits)
    qed
  qed
  from a b c d rest show ?thesis by blast
qed

text \<open>
  A request with a summary, a calendar url and priority 0, on an empty store with the
  remote store reachable: every check passes, the remote task is created, and the answer
  is 500 with no row stored.
\<close>

theorem create_task_priority_zero_witness:
  "py_int (data_get [(''summary'', PStr ''Buy milk''), (''calendar_url'', PStr ''cal''),
                     (''priority'', PInt 0)] ''priority'') = Inr 0
   \<and> pending (session_of []) = durable (session_of [])
   \<and> create_task_checks sample_env
        [(''summary'', PStr ''Buy milk''), (''calendar_url'', PStr ''cal''), (''priority'', PInt 0)]
        (session_of [])
       = Go (PStr ''Buy milk'', PStr ''cal'', PNone, PNone, PNone, PInt 0)
   \<and> fst (app_create_task sample_env (Some empty_remote)
        [(''summary'', PStr ''Buy milk''), (''calendar_url'', PStr ''cal''), (''priority'', PInt 0)]
        (session_of []))
       = Response 500 ''Priority must be between 1 and 9''
   \<and> tasks (durable (snd (app_create_task sample_env (Some empty_remote)
        [(''summary'', PStr ''Buy milk''), (''calendar_url'', PStr ''cal''), (''priority'', PInt 0)]
        (session_of [])))) = []"
proof -
  have z: "py_int (data_get [(''summary'', PStr ''Buy milk''), (''calendar_url'', PStr ''cal''),
                     (''priority'', PInt 0)] ''priority'') = Inr 0"
    by (simp add: data_get_def)
  have cl: "pending (session_of []) = durable (session_of [])"
    by (simp add: session_of_def)
  have spaces: "strip ''Buy milk'' = ''Buy milk''"
    by (simp add: strip_def is_space_def)
  have g: "create_task_checks sample_env
        [(''summary'', PStr ''Buy milk''), (''calendar_url'', PStr ''cal''), (''priority'', PInt 0)]
        (session_of [])
       = Go (PStr ''Buy milk'', PStr ''cal'', PNone, PNone, PNone, PInt 0)"
    by (simp add: create_task_checks_def data_get_def request_priority_def spaces)
  from create_task_priority_zero [OF z cl, of sample_env "Some empty_remote"] z cl g
  show ?thesis
    by (simp add: session_of_def)
qed

section \<open>Retry and backoff\<close>

lemma retry_attempts_success:
  assumes "n < m" and "int m = max_retries" and "func n = Returns v"
  shows "a \<le> n \<Longrightarrow> (\<forall>k. a \<le> k \<and> k < n \<longrightarrow> is_transient (func k)) \<Longrightarrow>
         retry_attempts max_retries delay func [a..<m] last_exc a sleeps
           = (Inr v, n + 1, sleeps @ map (\<lambda>k. delay * 2 ^ k) [a..<n])"
proof (induction "n - a" arbitrary: a last_exc sleeps)
  case 0
  then have "a = n" by simp
  with assms show ?case by (simp add: upt_conv_Cons)
next
  case (Suc d)
  then have lt: "a < n" and tr: "is_transient (func a)" by auto
  from tr obtain e where e: "func a = RaisesTransient e"
    by (auto simp: is_transient_def split: call_outcome.splits)
  from lt assms have am: "a < m" and guard: "int a < max_retries - 1" by auto
  have ih: "retry_attempts max_retries delay func [Suc a..<m] (Some e) (Suc a)
              (sleeps @ [delay * 2 ^ a])
           = (Inr v, n + 1, (sleeps @ [delay * 2 ^ a]) @ map (\<lambda>k. delay * 2 ^ k) [Suc a..<n])"
    using Suc.hyps(2) lt Suc.prems by (intro Suc.hyps(1)) auto
  show ?case
    using am lt e guard ih by (simp add: upt_conv_Cons)
qed

text \<open>
  C8. With \<open>max_retries = 3\<close>, a call that fails with a transient error on its first
  two invocations and returns on the third is invoked exactly 3 times, the sleeps
  requested before the second and the third invocation are \<open>base\<close> and \<open>2 * base\<close> (in
  total \<open>base + 2 * base\<close>) and the call's result is returned. The schedule in general:
  when the first \<open>n\<close> invocations fail with a transient error and invocation \<open>n\<close>
  returns (\<open>n < max_retries\<close>), the call is invoked \<open>n + 1\<close> times and sleep number
  \<open>k\<close>, the one requested in the loop's round \<open>attempt = k\<close>, is \<open>base * 2 ^ k\<close>.
\<close>

theorem retry_backoff_schedule:
  "(func 0 = RaisesTransient e0 \<and> func 1 = RaisesTransient e1 \<and> func 2 = Returns v
      \<longrightarrow> retry_on_failure 3 base func = (Inr v, 3, [base, 2 * base])
          \<and> sum_list (snd (snd (retry_on_failure 3 base func))) = base + 2 * base)
   \<and> (\<forall>n. int n < max_retries \<and> (\<forall>k<n. is_transient (func k)) \<and> func n = Returns v
      \<longrightarrow> retry_on_failure max_retries base func
            = (Inr v, n + 1, map (\<lambda>k. base * 2 ^ k) [0..<n])
          \<and> length (snd (snd (retry_on_failure max_retries base func))) = n
          \<and> (\<forall>k. k < n \<longrightarrow>
                snd (snd (retry_on_failure max_retries base func)) ! k = base * 2 ^ k))"
proof -
  have gen: "retry_on_failure max_retries base func
            = (Inr v, n + 1, map (\<lambda>k. base * 2 ^ k) [0..<n])"
    if "int n < max_retries" "\<forall>k<n. is_transient (func k)" "func n = Returns v"
    for n max_retries
  proof -
    from that(1) have "n < nat max_retries" "int (nat max_retries) = max_retries" by auto
    then have "retry_attempts max_retries base func [0..<nat max_retries] None 0 []
           = (Inr v, n + 1, [] @ map (\<lambda>k. base * 2 ^ k) [0..<n])"
      using that(2,3) by (intro retry_attempts_success) auto
    then show ?thesis by (simp add: retry_on_failure_def)
  qed
  have first: "retry_on_failure 3 base func = (Inr v, 3, [base, 2 * base])"
    if "func 0 = RaisesTransient e0" "func 1 = RaisesTransient e1" "func 2 = Returns v"
  proof -
    have "\<forall>k<2. is_transient (func k)"
      using that by (auto simp: is_transient_def less_Suc_eq numeral_2_eq_2)
    from gen [of 2 3, OF _ this that(3)] show ?thesis
      by (simp add: upt_rec numeral_2_eq_2)
  qed
  have sched: "snd (snd (retry_on_failure max_retries base func)) ! k = base * 2 ^ k"
    if "int n < max_retries" "\<forall>k<n. is_transient (func k)" "func n = Returns v" "k < n"
    for n k
    using gen [OF that(1-3)] that(4) by simp
  have len: "length (snd (snd (retry_on_failure max_retries base func))) = n"
    if "int n < max_retries" "\<forall>k<n. is_transient (func k)" "func n = Returns v"
    for n
    using gen [OF that(1-3)] by simp
  have total: "sum_list (snd (snd (retry_on_failure 3 base func))) = base + 2 * base"
    if "func 0 = RaisesTransient e0" "func 1 = RaisesTransient e1" "func 2 = Returns v"
    using first [OF that] by simp
  show ?thesis using gen first sched len total by blast
qed

text \<open>The call that times out twice, with a base delay of one second.\<close>

theorem retry_backoff_schedule_witness:
  "fails_twice 0 = RaisesTransient ''timeout'' \<and> fails_twice 1 = RaisesTransient ''timeout''
   \<and> fails_twice 2 = Returns ''ok''
   \<and> retry_on_failure 3 1 fails_twice = (Inr ''ok'', 3, [1, 2])
   \<and> sum_list (snd (snd (retry_on_failure 3 1 fails_twice))) = 1 + 2 * 1"
proof -
  have f: "fails_twice 0 = RaisesTransient ''timeout''" "fails_twice 1 = RaisesTransient ''timeout''"
    "fails_twice 2 = Returns ''ok''"
    by (simp_all add: fails_twice_def)
  from retry_backoff_schedule [of fails_twice "''timeout''" "''timeout''" "''ok''" 1 3] f
  have r: "retry_on_failure 3 1 fails_twice = (Inr ''ok'', 3, [1, 2])"
    by simp
  from f r show ?thesis
    by simp
qed

section \<open>Encoding: lines and their values\<close>

lemma getattr_values_of: "getattr ls n = (case values_of ls n of [] \<Rightarrow> None | v # vs \<Rightarrow> Some v)"
  by (induction ls) (auto simp: getattr_def values_of_def)

lemma hasattr_values_of: "hasattr ls n = (values_of ls n \<noteq> [])"
  by (simp add: hasattr_def getattr_values_of split: list.splits)

lemma values_of_set_first:
  "values_of (set_first ls n v) m =
     (if m = n then (case values_of ls n of [] \<Rightarrow> [] | w # ws \<Rightarrow> v # ws) else values_of ls m)"
  by (induction ls) (auto simp: values_of_def)

lemma values_of_add_line:
  "values_of (add_line ls n v) m = values_of ls m @ (if m = n then [v] else [])"
  by (simp add: values_of_def add_line_def)

lemma values_of_set_or_add:
  "values_of (set_or_add ls n v) m = (if m = n then v # tl (values_of ls n) else values_of ls m)"
  by (auto simp: set_or_add_def hasattr_values_of values_of_set_first values_of_add_line
      split: list.splits)

lemma values_of_remove_all:
  "values_of (remove_all ls n) m = (if m = n then [] else values_of ls m)"
  by (induction ls) (auto simp: values_of_def remove_all_def)

lemma values_of_remove1:
  "values_of (remove1 (n, v) ls) m =
     (if m = n then remove1 v (values_of ls n) else values_of ls m)"
  by (induction ls) (auto simp: values_of_def)

lemma values_of_remove_attr:
  "values_of (remove_attr ls n) m = (if m = n then tl (values_of ls n) else values_of ls m)"
  by (auto simp: remove_attr_def getattr_values_of values_of_remove1 split: list.splits)

lemma values_of_apply_fixes:
  "values_of (apply_fixes lib ls) n = concat (map (fixed_values lib n) (values_of ls n))"
  by (induction ls) (auto simp: values_of_def fixed_values_def split: fix_action.splits)

lemma find_replace_vtodo:
  "find (\<lambda>c. fst c = ''VTODO'') comps = Some vtodo \<Longrightarrow>
   find (\<lambda>c. fst c = ''VTODO'') (replace_vtodo comps ls') = Some (''VTODO'', ls')"
  by (induction comps) (auto split: if_splits)

section \<open>Encoding: integer properties\<close>

text \<open>
  On the update path the validation pass leaves no integer in a line named PRIORITY,
  PERCENT-COMPLETE or SEQUENCE: each such line holds a string.
\<close>

lemma apply_fixes_integer_properties:
  "(n, v) \<in> set (apply_fixes lib ls) \<Longrightarrow> n \<in> integer_properties \<Longrightarrow> \<exists>s. v = PStr s"
  by (induction ls)
     (auto simp: property_fix_def split: fix_action.splits if_splits pyval.splits prod.splits)

text \<open>
  C4 (the code against the claim). On the creation path there is no such pass:
  \<open>_create_vtodo\<close> for a new task with priority 5 hands the serializer a PRIORITY line
  that holds the integer 5, not the string.
\<close>

theorem create_vtodo_priority_is_integer:
  "create_vtodo lib ''fresh'' 100 ''Buy milk'' ''u1'' None None PNone (PInt 5)
     = Inr [(''UID'', PStr ''u1''), (''SUMMARY'', PStr ''Buy milk''),
            (''DTSTAMP'', PDateTime (Naive 100)), (''CREATED'', PDateTime (Naive 100)),
            (''STATUS'', PStr ''NEEDS-ACTION''), (''PRIORITY'', PInt 5)]"
  by (simp add: create_vtodo_def strip_def is_space_def create_priority_def create_due_def
      add_line_def)

section \<open>Encoding: the completion transition\<close>

lemma early_steps_keep:
  assumes "n \<notin> {''SUMMARY'', ''DESCRIPTION'', ''RELATED-TO'', ''DUE'', ''PRIORITY''}"
  shows "values_of (fst (update_priority prio (update_due lib due_v (update_parent lib parent
           (update_description lib descr (update_summary lib summ (ls, b))))))) n
         = values_of ls n"
proof -
  have 1: "values_of (fst (update_summary lib summ st)) n = values_of (fst st) n" for st
    using assms by (simp add: update_summary_def values_of_set_or_add)
  have 2: "values_of (fst (update_description lib descr st)) n = values_of (fst st) n" for st
    using assms
    by (simp add: update_description_def Let_def values_of_set_first values_of_remove_attr
        values_of_add_line)
  have 3: "values_of (fst (update_parent lib parent st)) n = values_of (fst st) n" for st
    using assms by (simp add: update_parent_def Let_def values_of_remove_attr values_of_add_line)
  have 4: "values_of (fst (update_due lib due_v st)) n = values_of (fst st) n" for st
    using assms by (simp add: update_due_def values_of_set_or_add split: pyval.splits)
  have 5: "values_of (fst (update_priority prio st)) n = values_of (fst st) n" for st
    using assms
    by (simp add: update_priority_def set_priority_safely_def values_of_remove_attr
        values_of_add_line split: sum.splits)
  show ?thesis by (simp add: 1 2 3 4 5)
qed

lemma update_vtodo_lines_completed:
  "update_vtodo_lines lib now summ descr due_v prio parent (Some c) ls =
     Some (apply_fixes lib (set_or_add (fst (update_completed now (Some c)
        (update_priority prio (update_due lib due_v (update_parent lib parent
           (update_description lib descr (update_summary lib summ (ls, False))))))))
        ''LAST-MODIFIED'' (PDateTime (Naive now))))"
  by (simp add: update_vtodo_lines_def Let_def validate_and_fix_vtodo_properties_def
      update_completed_def)

lemma fixed_values_simps:
  "fixed_values lib ''STATUS'' (PStr s) = [PStr s]"
  "fixed_values lib ''COMPLETED'' (PDateTime d) = [PDateTime d]"
  "fixed_values lib ''PERCENT-COMPLETE'' (PStr s) = [PStr s]"
  by (simp_all add: fixed_values_def property_fix_def integer_properties_def
      datetime_properties_def)

lemma update_vtodo_lines_transition:
  "(\<exists>ls'. update_vtodo_lines lib now summ descr due_v prio parent (Some True) ls = Some ls'
        \<and> getattr ls' ''STATUS'' = Some (PStr ''COMPLETED'')
        \<and> values_of ls' ''PERCENT-COMPLETE'' = [PStr ''100'']
        \<and> getattr ls' ''COMPLETED'' = Some (PDateTime (Naive now)))
   \<and> (\<exists>ls'. update_vtodo_lines lib now summ descr due_v prio parent (Some False) ls = Some ls'
        \<and> getattr ls' ''STATUS'' = Some (PStr ''NEEDS-ACTION'')
        \<and> values_of ls' ''PERCENT-COMPLETE'' = [PStr ''0'']
        \<and> (length (values_of ls ''COMPLETED'') \<le> 1 \<longrightarrow> \<not> hasattr ls' ''COMPLETED''))"
proof -
  let ?st = "update_priority prio (update_due lib due_v (update_parent lib parent
           (update_description lib descr (update_summary lib summ (ls, False)))))"
  have k: "values_of (fst ?st) ''COMPLETED'' = values_of ls ''COMPLETED''"
    by (rule early_steps_keep) simp
  have short: "length (values_of ls ''COMPLETED'') \<le> 1 \<Longrightarrow> tl (values_of ls ''COMPLETED'') = []"
    by (cases "values_of ls ''COMPLETED''") auto
  show ?thesis
    unfolding update_vtodo_lines_completed
    by (auto simp: getattr_values_of hasattr_values_of values_of_apply_fixes values_of_set_or_add
        update_completed_def Let_def values_of_add_line values_of_remove_all
        values_of_remove_attr fixed_values_simps k short)
qed

text \<open>
  What the update saves. When the update returns with a saved record, the record was
  accepted by the serializer and by the save, and its VTODO has the status of the new
  flag and exactly one PERCENT-COMPLETE line, with the string 100 or 0; marked completed
  it has a COMPLETED line with the current time, and marked incomplete it has no
  COMPLETED line if the record held at most one before.
\<close>

lemma saved_update_transition:
  assumes "client_update_task lib w now todo summ descr due_v prio parent (Some c) = Inr r"
  shows "\<exists>comps ls ls' data.
           todo = Some (ICal comps)
         \<and> find (\<lambda>c. fst c = ''VTODO'') comps = Some (''VTODO'', ls)
         \<and> r = Some (replace_vtodo comps ls', data)
         \<and> serialize w (replace_vtodo comps ls') = Return data
         \<and> save w data = Return ()
         \<and> find (\<lambda>c. fst c = ''VTODO'') (replace_vtodo comps ls') = Some (''VTODO'', ls')
         \<and> getattr ls' ''STATUS'' = Some (PStr (if c then ''COMPLETED'' else ''NEEDS-ACTION''))
         \<and> values_of ls' ''PERCENT-COMPLETE'' = [PStr (if c then ''100'' else ''0'')]
         \<and> (c \<longrightarrow> getattr ls' ''COMPLETED'' = Some (PDateTime (Naive now)))
         \<and> (\<not> c \<and> length (values_of ls ''COMPLETED'') \<le> 1 \<longrightarrow> \<not> hasattr ls' ''COMPLETED'')"
proof -
  from assms obtain comps where todo: "todo = Some (ICal comps)"
    by (auto simp: client_update_task_def split: option.splits wire.splits)
  from assms todo obtain vtodo where v: "find (\<lambda>c. fst c = ''VTODO'') comps = Some vtodo"
    by (auto simp: client_update_task_def split: option.splits)
  then have "fst vtodo = ''VTODO''" by (auto simp: find_Some_iff)
  then have f: "find (\<lambda>c. fst c = ''VTODO'') comps = Some (''VTODO'', snd vtodo)"
    using v by (cases vtodo) simp
  let ?ls = "snd vtodo"
  from update_vtodo_lines_transition [of lib now summ descr due_v prio parent ?ls]
  obtain l1 l2 where
    t: "update_vtodo_lines lib now summ descr due_v prio parent (Some True) ?ls = Some l1"
       "getattr l1 ''STATUS'' = Some (PStr ''COMPLETED'')"
       "values_of l1 ''PERCENT-COMPLETE'' = [PStr ''100'']"
       "getattr l1 ''COMPLETED'' = Some (PDateTime (Naive now))"
    and n: "update_vtodo_lines lib now summ descr due_v prio parent (Some False) ?ls = Some l2"
       "getattr l2 ''STATUS'' = Some (PStr ''NEEDS-ACTION'')"
       "values_of l2 ''PERCENT-COMPLETE'' = [PStr ''0'']"
       "length (values_of ?ls ''COMPLETED'') \<le> 1 \<longrightarrow> \<not> hasattr l2 ''COMPLETED''"
    by blast
  define ls' where "ls' = (if c then l1 else l2)"
  have u: "update_vtodo_lines lib now summ descr due_v prio parent (Some c) ?ls = Some ls'"
    using t(1) n(1) by (simp add: ls'_def)
  from assms todo v u obtain data where
    d: "serialize w (replace_vtodo comps ls') = Return data" "save w data = Return ()"
       "r = Some (replace_vtodo comps ls', data)"
    by (auto simp: client_update_task_def split: outcome.splits)
  have p: "getattr ls' ''STATUS'' = Some (PStr (if c then ''COMPLETED'' else ''NEEDS-ACTION''))"
          "values_of ls' ''PERCENT-COMPLETE'' = [PStr (if c then ''100'' else ''0'')]"
          "c \<longrightarrow> getattr ls' ''COMPLETED'' = Some (PDateTime (Naive now))"
          "\<not> c \<and> length (values_of ?ls ''COMPLETED'') \<le> 1 \<longrightarrow> \<not> hasattr ls' ''COMPLETED''"
    using t n by (simp_all add: ls'_def)
  from todo f d p find_replace_vtodo [OF v, of ls'] show ?thesis by blast
qed

text \<open>
  The update returns with a saved record whenever the record has a VTODO component and
  the serializer and the save accept what the steps made of it.
\<close>

lemma accepted_update_saves:
  assumes "find (\<lambda>c. fst c = ''VTODO'') comps = Some vtodo"
      and "update_vtodo_lines lib now summ descr due_v prio parent compl (snd vtodo) = Some ls'"
      and "serialize w (replace_vtodo comps ls') = Return data"
      and "save w data = Return ()"
  shows "client_update_task lib w now (Some (ICal comps)) summ descr due_v prio parent compl
         = Inr (Some (replace_vtodo comps ls', data))"
  using assms by (simp add: client_update_task_def)

text \<open>A record with one COMPLETED line, marked incomplete: the saved record has none.\<close>

lemma one_completed_line_removed:
  "client_update_task sample_lib strict_wirelib 100
        (Some (ICal [(''VTODO'', [(''UID'', PStr ''u1''), (''STATUS'', PStr ''COMPLETED''),
                                  (''COMPLETED'', PDateTime (Naive 5))])]))
        PNone PNone PNone PNone PNone (Some False)
     = Inr (Some ([(''VTODO'', [(''UID'', PStr ''u1''), (''STATUS'', PStr ''NEEDS-ACTION''),
                               (''PERCENT-COMPLETE'', PStr ''0''),
                               (''LAST-MODIFIED'', PDateTime (Naive 100))])],
                  [(''VTODO'', [(''UID'', PStr ''u1''), (''STATUS'', PStr ''NEEDS-ACTION''),
                               (''PERCENT-COMPLETE'', PStr ''0''),
                               (''LAST-MODIFIED'', PDateTime (Naive 100))])]))"
  by (simp add: client_update_task_def update_vtodo_lines_def update_completed_def
      update_priority_def update_due_def update_parent_def update_description_def
      update_summary_def set_or_add_def hasattr_def getattr_def remove_attr_def
      remove_all_def add_line_def validate_and_fix_vtodo_properties_def property_fix_def
      integer_properties_def datetime_properties_def Let_def strict_wirelib_def
      valid_component_def once_only_properties_def)

text \<open>
  C9 (the code against the claim). A remote record that holds two COMPLETED lines (the
  parser does not validate what it reads) is marked incomplete. The step under the
  comment \<open>Remove completion timestamp\<close> removes the first COMPLETED line only, where the
  loop beside it removes every PERCENT-COMPLETE line: the record that is serialized and
  saved has status NEEDS-ACTION, PERCENT-COMPLETE 0 and still a completion timestamp.
  Marked completed, the same record keeps both COMPLETED lines, the serializer refuses
  it and the update raises: no record is encoded.
\<close>

theorem completed_timestamp_survives_update:
  "client_update_task sample_lib strict_wirelib 100
     (Some (ICal [(''VTODO'', [(''UID'', PStr ''u1''), (''STATUS'', PStr ''COMPLETED''),
                               (''COMPLETED'', PDateTime (Naive 5)),
                               (''COMPLETED'', PDateTime (Naive 6))])]))
     PNone PNone PNone PNone PNone (Some False)
   = Inr (Some ([(''VTODO'', [(''UID'', PStr ''u1''), (''STATUS'', PStr ''NEEDS-ACTION''),
                             (''COMPLETED'', PDateTime (Naive 6)),
                             (''PERCENT-COMPLETE'', PStr ''0''),
                             (''LAST-MODIFIED'', PDateTime (Naive 100))])],
                [(''VTODO'', [(''UID'', PStr ''u1''), (''STATUS'', PStr ''NEEDS-ACTION''),
                             (''COMPLETED'', PDateTime (Naive 6)),
                             (''PERCENT-COMPLETE'', PStr ''0''),
                             (''LAST-MODIFIED'', PDateTime (Naive 100))])]))
   \<and> client_update_task sample_lib strict_wirelib 100
     (Some (ICal [(''VTODO'', [(''UID'', PStr ''u1''), (''STATUS'', PStr ''COMPLETED''),
                               (''COMPLETED'', PDateTime (Naive 5)),
                               (''COMPLETED'', PDateTime (Naive 6))])]))
     PNone PNone PNone PNone PNone (Some True)
   = Inl ''Task update failed: Failed to serialize updated task: ValidateError''"
  by (simp add: client_update_task_def update_vtodo_lines_def update_completed_def
      update_priority_def update_due_def update_parent_def update_description_def
      update_summary_def set_or_add_def hasattr_def getattr_def remove_attr_def
      remove_all_def add_line_def validate_and_fix_vtodo_properties_def property_fix_def
      integer_properties_def datetime_properties_def Let_def strict_wirelib_def
      valid_component_def once_only_properties_def)

section \<open>Pull: records that fail to decode\<close>

lemma assign_fields_ok: "snd (assign_fields e td t) = (\<not> rejected td)"
  by (auto simp: assign_fields_def rejected_def Let_def split: sum.splits)

lemma sync_loop_stats:
  "sync_loop e cal tds (s, stats) = (s', stats') \<Longrightarrow>
     stat_errors stats' = stat_errors stats + length (filter rejected tds)
   \<and> stat_created stats' + stat_updated stats' = stat_created stats + stat_updated stats + length tds
   \<and> total_fetched stats' = total_fetched stats \<and> hierarchy_fixes stats' = hierarchy_fixes stats"
proof (induction tds arbitrary: s stats)
  case Nil
  then show ?case by simp
next
  case (Cons td tds)
  show ?case
  proof (cases "query_task s (uid td) cal")
    case None
    with Cons.prems Cons.IH show ?thesis
      using assign_fields_ok [of e td "fresh_row e (uid td) cal"]
      by (auto simp: Let_def split: prod.splits if_splits)
  next
    case (Some t)
    with Cons.prems Cons.IH show ?thesis
      using assign_fields_ok [of e td t]
      by (auto simp: Let_def split: prod.splits if_splits)
  qed
qed

lemma get_all_tasks_loop_count:
  "get_all_tasks_loop astimezone uuid4 i todos (acc, n) = (tds, n') \<Longrightarrow>
     length tds + n' = length acc + n + length todos"
  by (induction todos arbitrary: i acc n) (auto split: option.splits)

lemma get_all_tasks_loop_skips:
  "fst (get_all_tasks_loop astimezone uuid4 i todos (acc, n))
     = acc @ map the (filter (\<lambda>r. r \<noteq> None)
         (map (\<lambda>(j, w). parse_vtodo_safely astimezone (uuid4 j) w) (zip [i..<i + length todos] todos)))"
proof (induction todos arbitrary: i acc n)
  case Nil
  then show ?case by simp
next
  case (Cons w ws)
  have z: "zip [i..<i + length (w # ws)] (w # ws) = (i, w) # zip [Suc i..<Suc i + length ws] ws"
    by (simp add: upt_conv_Cons del: upt_Suc)
  show ?case
    unfolding z using Cons.IH [of "Suc i"]
    by (auto split: option.splits)
qed


text \<open>
  C5 (as the code has it). A pull that returns statistics decoded every record it could:
  the decoded list is the decodable records in their order, so a record that fails to
  decode is skipped and aborts nothing. But no returned statistic counts it:
  \<open>total_fetched\<close> is the number of decoded records (the fetched ones less the parse
  errors, which only the log holds), \<open>errors\<close> is the number of records of the
  validated batch that the model's validators refused, \<open>created + updated\<close> is the size
  of the validated batch, and \<open>hierarchy_fixes\<close> is 0.
\<close>

theorem pull_statistics:
  assumes "sync_tasks_to_db astimezone uuid4 e (Return todos) cal s = (Inr (count, stats), s')"
  shows "\<exists>decoded.
           get_all_tasks astimezone uuid4 (Return todos) = Inr decoded
         \<and> decoded = map the (filter (\<lambda>r. r \<noteq> None)
             (map (\<lambda>(j, w). parse_vtodo_safely astimezone (uuid4 j) w)
                (zip [0..<length todos] todos)))
         \<and> total_fetched stats = length decoded
         \<and> total_fetched stats + parse_errors_logged astimezone uuid4 todos = length todos
         \<and> stat_errors stats
             = length (filter rejected
                 (map snd (validate_task_hierarchy (build_task_map decoded))))
         \<and> stat_created stats + stat_updated stats
             = (if decoded = [] then 0
                else length (validate_task_hierarchy (build_task_map decoded)))
         \<and> count = stat_created stats + stat_updated stats
         \<and> hierarchy_fixes stats = 0"
proof -
  define decoded where "decoded = fst (get_all_tasks_loop astimezone uuid4 0 todos ([], 0))"
  have g: "get_all_tasks astimezone uuid4 (Return todos) = Inr decoded"
    by (simp add: get_all_tasks_def decoded_def)
  have d: "decoded = map the (filter (\<lambda>r. r \<noteq> None)
             (map (\<lambda>(j, w). parse_vtodo_safely astimezone (uuid4 j) w)
                (zip [0..<length todos] todos)))"
    using get_all_tasks_loop_skips [of astimezone uuid4 0 todos "[]" 0]
    by (simp add: decoded_def)
  have n: "length decoded + parse_errors_logged astimezone uuid4 todos = length todos"
    using get_all_tasks_loop_count [of astimezone uuid4 0 todos "[]" 0 decoded
        "parse_errors_logged astimezone uuid4 todos"]
    by (simp add: decoded_def parse_errors_logged_def)
  let ?stats0 = "\<lparr> total_fetched = length decoded, stat_created = 0,
                   stat_updated = 0, stat_errors = 0, hierarchy_fixes = 0 \<rparr>"
  let ?tm = "validate_task_hierarchy (build_task_map decoded)"
  have rest: "total_fetched stats = length decoded
         \<and> stat_errors stats = length (filter rejected (map snd ?tm))
         \<and> stat_created stats + stat_updated stats = (if decoded = [] then 0 else length ?tm)
         \<and> count = stat_created stats + stat_updated stats
         \<and> hierarchy_fixes stats = 0"
  proof (cases "decoded = []")
    case True
    with assms g show ?thesis
      by (auto simp: sync_tasks_to_db_def Let_def build_task_map_def validate_task_hierarchy_def
          validate_task_hierarchy_fixed_def)
  next
    case False
    obtain s1 stats1 where l: "sync_loop e cal (map snd ?tm) (s, ?stats0) = (s1, stats1)"
      by (cases "sync_loop e cal (map snd ?tm) (s, ?stats0)") auto
    from assms g False l have "stats = stats1" "count = stat_created stats1 + stat_updated stats1"
      by (auto simp: sync_tasks_to_db_def Let_def split: if_splits)
    with sync_loop_stats [OF l] False show ?thesis by simp
  qed
  from g d n rest show ?thesis by simp
qed

lemma sync_one_good_one_garbled:
  "fst (sync_tasks_to_db Converted (\<lambda>i. ''generated'') sample_env
     (Return [Garbled, ICal [(''VTODO'', [(''UID'', PStr ''u1''), (''SUMMARY'', PStr ''Buy milk'')])]])
     (PStr ''cal'') (session_of []))
   = Inr (1, \<lparr> total_fetched = 1, stat_created = 1, stat_updated = 0, stat_errors = 0,
                hierarchy_fixes = 0 \<rparr>)"
  by (simp add: sync_tasks_to_db_def get_all_tasks_def parse_vtodo_safely_def
      safe_get_value_def getattr_def decode_priority_def build_task_map_def
      validate_task_hierarchy_def validate_task_hierarchy_fixed_def Let_def
      query_task_def session_of_def add_task_def fresh_row_def validate_uid_def
      assign_fields_def validate_summary_def strip_def is_space_def validate_priority_def
      mark_synced_def store_task_def flush_ok_def commit_def sample_env_def)

text \<open>
  A pull of two records, the first of which the parser rejects: one record is decoded,
  one parse error is logged, and the statistics hold one fetched record and no error.
\<close>

theorem pull_statistics_witness:
  "fst (sync_tasks_to_db Converted (\<lambda>i. ''generated'') sample_env
     (Return [Garbled, ICal [(''VTODO'', [(''UID'', PStr ''u1''), (''SUMMARY'', PStr ''Buy milk'')])]])
     (PStr ''cal'') (session_of []))
   = Inr (1, \<lparr> total_fetched = 1, stat_created = 1, stat_updated = 0, stat_errors = 0,
                hierarchy_fixes = 0 \<rparr>)
   \<and> 1 + parse_errors_logged Converted (\<lambda>i. ''generated'')
        [Garbled, ICal [(''VTODO'', [(''UID'', PStr ''u1''), (''SUMMARY'', PStr ''Buy milk'')])]]
     = 2"
proof -
  obtain s' where r: "sync_tasks_to_db Converted (\<lambda>i. ''generated'') sample_env
     (Return [Garbled, ICal [(''VTODO'', [(''UID'', PStr ''u1''), (''SUMMARY'', PStr ''Buy milk'')])]])
     (PStr ''cal'') (session_of [])
     = (Inr (1, \<lparr> total_fetched = 1, stat_created = 1, stat_updated = 0, stat_errors = 0,
                hierarchy_fixes = 0 \<rparr>), s')"
    using sync_one_good_one_garbled by (metis prod.collapse)
  from pull_statistics [OF r] r show ?thesis
    by auto
qed

text \<open>
  The claim as the specification words it fails: in that pull one record fails to
  decode, and the returned \<open>errors\<close> statistic is 0 (as is every other trace of the
  record in the statistics).
\<close>

theorem undecodable_record_not_counted_counterexample:
  "map_sum id (\<lambda>r. stat_errors (snd r))
     (fst (sync_tasks_to_db Converted (\<lambda>i. ''generated'') sample_env
        (Return [Garbled,
                 ICal [(''VTODO'', [(''UID'', PStr ''u1''), (''SUMMARY'', PStr ''Buy milk'')])]])
        (PStr ''cal'') (session_of [])))
   = Inr 0
   \<and> parse_vtodo_safely Converted ''generated'' Garbled = None"
  by (simp add: sync_one_good_one_garbled parse_vtodo_safely_def)

section \<open>Hierarchy validation\<close>

lemma map_of_clear_parent:
  "map_of (clear_parent tm k) u =
     (if u = k then map_option (\<lambda>t. t\<lparr>parent_uid := PNone\<rparr>) (map_of tm k) else map_of tm u)"
  by (induction tm) (auto simp: clear_parent_def)

lemma keys_clear_parent: "map fst (clear_parent tm k) = map fst tm"
  by (induction tm) (auto simp: clear_parent_def)

lemma shrinks_refl: "shrinks tm tm"
  by (simp add: shrinks_def)

lemma shrinks_trans:
  assumes "shrinks a b" and "shrinks b c"
  shows "shrinks a c"
proof -
  have keys: "map fst c = map fst a"
    using assms by (simp add: shrinks_def)
  have "\<exists>t. map_of a u = Some t \<and> (t'' = t \<or> t'' = t\<lparr>parent_uid := PNone\<rparr>)"
    if c: "map_of c u = Some t''" for u t''
  proof -
    from assms(2) c obtain t' where b: "map_of b u = Some t'"
      and 1: "t'' = t' \<or> t'' = t'\<lparr>parent_uid := PNone\<rparr>"
      unfolding shrinks_def by blast
    from assms(1) b obtain t where a: "map_of a u = Some t"
      and 2: "t' = t \<or> t' = t\<lparr>parent_uid := PNone\<rparr>"
      unfolding shrinks_def by blast
    from 1 2 have "t'' = t \<or> t'' = t\<lparr>parent_uid := PNone\<rparr>"
      by auto
    with a show ?thesis by blast
  qed
  with keys show ?thesis
    unfolding shrinks_def by blast
qed

lemma shrinks_clear_parent: "shrinks tm (clear_parent tm k)"
  by (auto simp: shrinks_def keys_clear_parent map_of_clear_parent split: if_splits)

lemma shrinks_dom: "shrinks tm tm' \<Longrightarrow> (map_of tm' u = None) = (map_of tm u = None)"
  by (metis shrinks_def map_of_eq_None_iff list.set_map)

lemma shrinks_edges:
  assumes "shrinks tm tm'"
  shows "parent_edges tm' \<subseteq> parent_edges tm"
proof
  fix e assume "e \<in> parent_edges tm'"
  then obtain u p t' where e: "e = (u, p)" and t': "map_of tm' u = Some t'"
    "parent_uid t' = p" "p \<noteq> PNone"
    by (auto simp: parent_edges_def)
  from assms t'(1) obtain t where t: "map_of tm u = Some t"
    "t' = t \<or> t' = t\<lparr>parent_uid := PNone\<rparr>"
    unfolding shrinks_def by blast
  from t(2) t'(2,3) have "parent_uid t = p" by auto
  with t(1) t'(3) e show "e \<in> parent_edges tm"
    by (auto simp: parent_edges_def)
qed

lemma parent_edges_step:
  "(c, q) \<in> parent_edges tm \<Longrightarrow> map_of tm c = Some t \<Longrightarrow> q = parent_uid t \<and> q \<noteq> PNone"
  by (auto simp: parent_edges_def)

lemma parent_edges_no_key: "map_of tm c = None \<Longrightarrow> (c, q) \<notin> parent_edges tm"
  by (auto simp: parent_edges_def)

text \<open>has_cycle answers False only when the start is not reachable.\<close>

lemma has_cycle_False:
  "\<not> has_cycle tm s c V \<Longrightarrow>
   (\<forall>v \<in> V. v \<noteq> s \<and> (\<forall>q. (v, q) \<in> parent_edges tm \<longrightarrow> q \<in> V \<or> q = c)) \<Longrightarrow>
   c \<noteq> PNone \<Longrightarrow> (c, s) \<notin> (parent_edges tm)\<^sup>*"
proof (induction tm s c V rule: has_cycle.induct)
  case (1 tm s c V)
  from "1.prems"(1,3) have cs: "c \<noteq> s"
    by (subst (asm) has_cycle.simps) auto
  show ?case
  proof (cases "c \<in> V")
    case True
    have closed: "\<And>v q. v \<in> V \<Longrightarrow> (v, q) \<in> parent_edges tm \<Longrightarrow> q \<in> V"
      using "1.prems"(2) True by blast
    have "y \<in> V" if "(c, y) \<in> (parent_edges tm)\<^sup>*" for y
      using that by (induction rule: rtrancl_induct) (auto intro: True closed)
    moreover have "s \<notin> V" using "1.prems"(2) by blast
    ultimately show ?thesis by blast
  next
    case False
    show ?thesis
    proof (cases "map_of tm c")
      case None
      then have "\<And>q. (c, q) \<notin> parent_edges tm" by (rule parent_edges_no_key)
      with cs show ?thesis
        by (metis converse_rtranclE)
    next
      case (Some t)
      from "1.prems"(1,3) cs False Some
      have rec: "\<not> has_cycle tm s (parent_uid t) (insert c V)"
        by (subst (asm) has_cycle.simps) simp
      have inv: "\<forall>v \<in> insert c V. v \<noteq> s \<and>
                  (\<forall>q. (v, q) \<in> parent_edges tm \<longrightarrow> q \<in> insert c V \<or> q = parent_uid t)"
        using "1.prems"(2) cs Some by (auto dest: parent_edges_step)
      show ?thesis
      proof
        assume "(c, s) \<in> (parent_edges tm)\<^sup>*"
        with cs obtain q where q: "(c, q) \<in> parent_edges tm" "(q, s) \<in> (parent_edges tm)\<^sup>*"
          by (metis converse_rtranclE)
        with Some have qp: "q = parent_uid t" "q \<noteq> PNone"
          by (auto dest: parent_edges_step)
        from "1.IH" [OF "1.prems"(3) cs False Some rec inv] qp q(2)
        show False by simp
      qed
    qed
  qed
qed

text \<open>has_cycle answers True only when the start is reachable.\<close>

lemma has_cycle_True:
  "has_cycle tm s c V \<Longrightarrow> c \<noteq> PNone \<and> (c, s) \<in> (parent_edges tm)\<^sup>*"
proof (induction tm s c V rule: has_cycle.induct)
  case (1 tm s c V)
  from "1.prems" have ne: "c \<noteq> PNone"
    by (subst (asm) has_cycle.simps) (auto split: if_splits)
  show ?case
  proof (cases "c = s")
    case True
    with ne show ?thesis by simp
  next
    case False
    from "1.prems" ne False have nv: "c \<notin> V"
      by (subst (asm) has_cycle.simps) (auto split: if_splits)
    from "1.prems" ne False nv obtain t where t: "map_of tm c = Some t"
      and rec: "has_cycle tm s (parent_uid t) (insert c V)"
      by (subst (asm) has_cycle.simps) (auto split: if_splits option.splits)
    from "1.IH" [OF ne False nv t rec]
    have p: "parent_uid t \<noteq> PNone" "(parent_uid t, s) \<in> (parent_edges tm)\<^sup>*" by auto
    from t p(1) have "(c, parent_uid t) \<in> parent_edges tm"
      by (auto simp: parent_edges_def)
    with p(2) ne show ?thesis
      by (meson converse_rtrancl_into_rtrancl)
  qed
qed

lemma shrinks_truthy:
  assumes "shrinks tm tm'" and "map_of tm' k = Some t'" and "truthy (parent_uid t')"
  shows "map_of tm k = Some t'"
proof -
  from assms(1,2) obtain t where t: "map_of tm k = Some t"
    "t' = t \<or> t' = t\<lparr>parent_uid := PNone\<rparr>"
    unfolding shrinks_def by blast
  from t(2) assms(3) have "t' = t" by auto
  with t(1) show ?thesis by simp
qed

lemma resolved_at_shrinks:
  assumes "resolved_at tm k" and "shrinks tm tm'"
  shows "resolved_at tm' k"
  unfolding resolved_at_def
proof (intro allI impI)
  fix t' assume a: "map_of tm' k = Some t' \<and> truthy (parent_uid t')"
  with assms(2) have "map_of tm k = Some t'" by (blast intro: shrinks_truthy)
  with assms(1) a have "map_of tm (parent_uid t') \<noteq> None"
    by (auto simp: resolved_at_def)
  with assms(2) show "map_of tm' (parent_uid t') \<noteq> None"
    by (simp add: shrinks_dom)
qed

lemma acyclic_at_shrinks:
  assumes "acyclic_at tm k" and "shrinks tm tm'"
  shows "acyclic_at tm' k"
  unfolding acyclic_at_def
proof (intro allI impI)
  fix t' assume a: "map_of tm' k = Some t' \<and> truthy (parent_uid t')"
  with assms(2) have "map_of tm k = Some t'" by (blast intro: shrinks_truthy)
  with assms(1) a have "(k, k) \<notin> (parent_edges tm)\<^sup>+"
    by (auto simp: acyclic_at_def)
  moreover have "(parent_edges tm')\<^sup>+ \<subseteq> (parent_edges tm)\<^sup>+"
    using shrinks_edges [OF assms(2)] by (rule trancl_mono_subset)
  ultimately show "(k, k) \<notin> (parent_edges tm')\<^sup>+" by blast
qed

lemma first_pass_shrinks: "shrinks tm (fst (first_pass ks (tm, n)))"
proof (induction ks arbitrary: tm n)
  case Nil
  show ?case by (simp add: shrinks_refl)
next
  case (Cons k ks)
  show ?case
    using Cons.IH [of tm n] Cons.IH [of "clear_parent tm k" "n + 1"]
      shrinks_trans [OF shrinks_clear_parent [of tm k]]
    by (auto split: option.splits)
qed

lemma first_pass_resolves:
  "k \<in> set ks \<Longrightarrow> resolved_at (fst (first_pass ks (tm, n))) k"
proof (induction ks arbitrary: tm n)
  case Nil
  then show ?case by simp
next
  case (Cons a ks)
  define tm1 where "tm1 = (case map_of tm a of None \<Rightarrow> tm | Some task \<Rightarrow>
      if truthy (parent_uid task) \<and> map_of tm (parent_uid task) = None
      then clear_parent tm a else tm)"
  define n1 where "n1 = (case map_of tm a of None \<Rightarrow> n | Some task \<Rightarrow>
      if truthy (parent_uid task) \<and> map_of tm (parent_uid task) = None
      then n + 1 else n)"
  have step: "first_pass (a # ks) (tm, n) = first_pass ks (tm1, n1)"
    by (simp add: tm1_def n1_def split: option.splits)
  have a_ok: "resolved_at tm1 a"
    by (auto simp: tm1_def resolved_at_def map_of_clear_parent split: option.splits)
  show ?case
  proof (cases "k \<in> set ks")
    case True
    then show ?thesis unfolding step by (rule Cons.IH)
  next
    case False
    with Cons.prems have "k = a" by simp
    with a_ok first_pass_shrinks [of tm1 ks n1] show ?thesis
      unfolding step by (blast intro: resolved_at_shrinks)
  qed
qed

lemma first_pass_noop:
  assumes "\<And>k. resolved_at tm k"
  shows "first_pass ks (tm, n) = (tm, n)"
proof (induction ks)
  case Nil
  show ?case by simp
next
  case (Cons k ks)
  have "\<not> (truthy (parent_uid t) \<and> map_of tm (parent_uid t) = None)"
    if "map_of tm k = Some t" for t
    using assms [of k] that by (auto simp: resolved_at_def)
  with Cons.IH show ?case
    by (auto split: option.splits)
qed

lemma second_pass_shrinks: "shrinks tm (fst (second_pass ks (tm, n)))"
proof (induction ks arbitrary: tm n)
  case Nil
  show ?case by (simp add: shrinks_refl)
next
  case (Cons k ks)
  show ?case
    using Cons.IH [of tm n] Cons.IH [of "clear_parent tm k" "n + 1"]
      shrinks_trans [OF shrinks_clear_parent [of tm k]]
    by (auto split: option.splits)
qed

lemma no_cycle_through:
  assumes "map_of tm k = Some t" and "truthy (parent_uid t)"
      and "\<not> has_cycle tm k (parent_uid t) {}"
  shows "(k, k) \<notin> (parent_edges tm)\<^sup>+"
proof
  assume "(k, k) \<in> (parent_edges tm)\<^sup>+"
  then obtain q where q: "(k, q) \<in> parent_edges tm" "(q, k) \<in> (parent_edges tm)\<^sup>*"
    by (meson tranclD)
  with assms(1) have "q = parent_uid t" by (auto dest: parent_edges_step)
  moreover from assms(2) have "parent_uid t \<noteq> PNone" by auto
  ultimately show False
    using has_cycle_False [OF assms(3)] q(2) by simp
qed

lemma second_pass_settles:
  "k \<in> set ks \<Longrightarrow> acyclic_at (fst (second_pass ks (tm, n))) k"
proof (induction ks arbitrary: tm n)
  case Nil
  then show ?case by simp
next
  case (Cons a ks)
  define tm1 where "tm1 = (case map_of tm a of None \<Rightarrow> tm | Some task \<Rightarrow>
      if truthy (parent_uid task) \<and> has_cycle tm a (parent_uid task) {}
      then clear_parent tm a else tm)"
  define n1 where "n1 = (case map_of tm a of None \<Rightarrow> n | Some task \<Rightarrow>
      if truthy (parent_uid task) \<and> has_cycle tm a (parent_uid task) {}
      then n + 1 else n)"
  have step: "second_pass (a # ks) (tm, n) = second_pass ks (tm1, n1)"
    by (simp add: tm1_def n1_def split: option.splits)
  have a_ok: "acyclic_at tm1 a"
    by (auto simp: tm1_def acyclic_at_def map_of_clear_parent split: option.splits
        dest: no_cycle_through)
  show ?case
  proof (cases "k \<in> set ks")
    case True
    then show ?thesis unfolding step by (rule Cons.IH)
  next
    case False
    with Cons.prems have "k = a" by simp
    with a_ok second_pass_shrinks [of tm1 ks n1] show ?thesis
      unfolding step by (blast intro: acyclic_at_shrinks)
  qed
qed

lemma acyclic_at_no_cycle:
  assumes "acyclic_at tm k" and "map_of tm k = Some t" and "truthy (parent_uid t)"
  shows "\<not> has_cycle tm k (parent_uid t) {}"
proof
  assume "has_cycle tm k (parent_uid t) {}"
  then have "(parent_uid t, k) \<in> (parent_edges tm)\<^sup>*" "parent_uid t \<noteq> PNone"
    by (auto dest: has_cycle_True)
  moreover from this(2) assms(2) have "(k, parent_uid t) \<in> parent_edges tm"
    by (auto simp: parent_edges_def)
  ultimately have "(k, k) \<in> (parent_edges tm)\<^sup>+"
    by (meson rtrancl_into_trancl2)
  with assms show False by (auto simp: acyclic_at_def)
qed

lemma second_pass_noop:
  assumes "\<And>k. acyclic_at tm k"
  shows "second_pass ks (tm, n) = (tm, n)"
proof (induction ks)
  case Nil
  show ?case by simp
next
  case (Cons k ks)
  have "\<not> (truthy (parent_uid t) \<and> has_cycle tm k (parent_uid t) {})"
    if "map_of tm k = Some t" for t
    using acyclic_at_no_cycle [OF assms [of k] that] by blast
  with Cons.IH show ?case
    by (auto split: option.splits)
qed

lemma settled_iff: "settled tm = (\<forall>k. resolved_at tm k \<and> acyclic_at tm k)"
  by (auto simp: settled_def resolved_at_def acyclic_at_def)

lemma map_of_key: "map_of tm k = Some t \<Longrightarrow> k \<in> set (map fst tm)"
  by (metis map_of_SomeD fst_conv image_eqI list.set_map)

lemma settled_validate: "settled (validate_task_hierarchy tm)"
proof -
  obtain tm1 n1 where p1: "first_pass (map fst tm) (tm, 0) = (tm1, n1)"
    by (cases "first_pass (map fst tm) (tm, 0)") auto
  obtain tm2 n2 where p2: "second_pass (map fst tm) (tm1, n1) = (tm2, n2)"
    by (cases "second_pass (map fst tm) (tm1, n1)") auto
  have v: "validate_task_hierarchy tm = tm2"
    by (simp add: validate_task_hierarchy_def validate_task_hierarchy_fixed_def p1 p2)
  have s1: "shrinks tm tm1" using first_pass_shrinks [of tm "map fst tm" 0] p1 by simp
  have s2: "shrinks tm1 tm2" using second_pass_shrinks [of tm1 "map fst tm" n1] p2 by simp
  have keys1: "map fst tm1 = map fst tm" using s1 by (simp add: shrinks_def)
  have keys2: "map fst tm2 = map fst tm" using s2 keys1 by (simp add: shrinks_def)
  have r1: "resolved_at tm1 k" for k
  proof (cases "k \<in> set (map fst tm)")
    case True
    from first_pass_resolves [OF this, of tm 0] p1 show ?thesis by simp
  next
    case False
    with keys1 have "map_of tm1 k = None"
      by (metis map_of_key not_Some_eq)
    then show ?thesis by (simp add: resolved_at_def)
  qed
  have r2: "resolved_at tm2 k" for k
    using r1 s2 by (rule resolved_at_shrinks)
  have a2: "acyclic_at tm2 k" for k
  proof (cases "k \<in> set (map fst tm)")
    case True
    from second_pass_settles [OF this, of tm1 n1] p2 show ?thesis by simp
  next
    case False
    with keys2 have "map_of tm2 k = None"
      by (metis map_of_key not_Some_eq)
    then show ?thesis by (simp add: acyclic_at_def)
  qed
  from r2 a2 show ?thesis unfolding v settled_iff by blast
qed

lemma validate_settled: "settled tm \<Longrightarrow> validate_task_hierarchy_fixed tm = (tm, 0)"
  by (simp add: validate_task_hierarchy_fixed_def settled_iff first_pass_noop second_pass_noop)


lemma hierarchy_valid_settled:
  assumes "hierarchy_valid tm"
  shows "settled tm"
  unfolding settled_def
proof (intro allI impI)
  fix k t assume a: "map_of tm k = Some t \<and> truthy (parent_uid t)"
  then have "(k, t) \<in> set tm" "parent_uid t \<noteq> PNone"
    by (auto dest: map_of_SomeD)
  with assms have "map_of tm (parent_uid t) \<noteq> None"
    unfolding hierarchy_valid_def by blast
  moreover from assms have "(k, k) \<notin> (parent_edges tm)\<^sup>+"
    by (simp add: hierarchy_valid_def acyclic_def)
  ultimately show "map_of tm (parent_uid t) \<noteq> None \<and> (k, k) \<notin> (parent_edges tm)\<^sup>+"
    by simp
qed

text \<open>
  C7. Validation of a batch that satisfies the validity invariant (no cycles, every
  non-null parent a key) returns the batch as it is and counts no repair; and for every
  batch, valid or not, validating the validated batch changes nothing and counts no
  repair, so validating twice equals validating once.
\<close>

theorem validate_task_hierarchy_idempotent:
  "(hierarchy_valid tm \<longrightarrow> validate_task_hierarchy_fixed tm = (tm, 0))
   \<and> validate_task_hierarchy_fixed (validate_task_hierarchy tm) = (validate_task_hierarchy tm, 0)
   \<and> validate_task_hierarchy (validate_task_hierarchy tm) = validate_task_hierarchy tm"
proof -
  have a: "hierarchy_valid tm \<longrightarrow> validate_task_hierarchy_fixed tm = (tm, 0)"
    by (blast intro: validate_settled hierarchy_valid_settled)
  have b: "validate_task_hierarchy_fixed (validate_task_hierarchy tm)
             = (validate_task_hierarchy tm, 0)"
    using settled_validate by (rule validate_settled)
  then have c: "validate_task_hierarchy (validate_task_hierarchy tm) = validate_task_hierarchy tm"
    by (simp add: validate_task_hierarchy_def)
  from a b c show ?thesis by blast
qed

lemma live_edges_subset: "live_edges tm \<subseteq> parent_edges tm"
  by (auto simp: live_edges_def parent_edges_def)

lemma settled_acyclic_live:
  assumes "settled tm"
  shows "acyclic (live_edges tm)"
  unfolding acyclic_def
proof (intro allI notI)
  fix k assume c: "(k, k) \<in> (live_edges tm)\<^sup>+"
  then obtain q where "(k, q) \<in> live_edges tm" by (meson tranclD)
  then obtain t where "map_of tm k = Some t" "truthy (parent_uid t)"
    by (auto simp: live_edges_def)
  with assms have "(k, k) \<notin> (parent_edges tm)\<^sup>+"
    by (auto simp: settled_def)
  moreover from c have "(k, k) \<in> (parent_edges tm)\<^sup>+"
    using trancl_mono_subset [OF live_edges_subset] by blast
  ultimately show False by simp
qed

lemma validate_shrinks: "shrinks tm (validate_task_hierarchy tm)"
proof -
  obtain tm1 n1 where p1: "first_pass (map fst tm) (tm, 0) = (tm1, n1)"
    by (cases "first_pass (map fst tm) (tm, 0)") auto
  have "shrinks tm tm1" using first_pass_shrinks [of tm "map fst tm" 0] p1 by simp
  moreover have "shrinks tm1 (fst (second_pass (map fst tm) (tm1, n1)))"
    by (rule second_pass_shrinks)
  ultimately show ?thesis
    by (simp add: validate_task_hierarchy_def validate_task_hierarchy_fixed_def p1
        shrinks_trans)
qed

lemma validated_batch:
  assumes "distinct (map fst tm)"
  shows "acyclic (live_edges (validate_task_hierarchy tm))
       \<and> (\<forall>(u, t) \<in> set (validate_task_hierarchy tm).
             truthy (parent_uid t) \<longrightarrow> map_of (validate_task_hierarchy tm) (parent_uid t) \<noteq> None)
       \<and> ((\<forall>(u, t) \<in> set tm. parent_uid t \<noteq> PNone \<longrightarrow> truthy (parent_uid t))
             \<longrightarrow> hierarchy_valid (validate_task_hierarchy tm))"
proof -
  let ?tm = "validate_task_hierarchy tm"
  have st: "settled ?tm" by (rule settled_validate)
  have sh: "shrinks tm ?tm" by (rule validate_shrinks)
  then have d: "distinct (map fst ?tm)" using assms by (simp add: shrinks_def)
  have entry: "map_of ?tm u = Some t" if "(u, t) \<in> set ?tm" for u t
    using d that by simp
  have a: "acyclic (live_edges ?tm)" using st by (rule settled_acyclic_live)
  have b: "\<forall>(u, t) \<in> set ?tm. truthy (parent_uid t) \<longrightarrow> map_of ?tm (parent_uid t) \<noteq> None"
  proof (intro ballI, clarify)
    fix u t y assume "(u, t) \<in> set ?tm" "truthy (parent_uid t)"
    with entry have "map_of ?tm u = Some t \<and> truthy (parent_uid t)" by blast
    with st have "map_of ?tm (parent_uid t) \<noteq> None"
      unfolding settled_def by blast
    then show "\<exists>y. map_of ?tm (parent_uid t) = Some y" by blast
  qed
  have c: "hierarchy_valid ?tm"
    if ne: "\<forall>(u, t) \<in> set tm. parent_uid t \<noteq> PNone \<longrightarrow> truthy (parent_uid t)"
  proof -
    have tr: "truthy (parent_uid t')" if "map_of ?tm u = Some t'" "parent_uid t' \<noteq> PNone" for u t'
    proof -
      from sh that(1) obtain t where t: "map_of tm u = Some t"
        "t' = t \<or> t' = t\<lparr>parent_uid := PNone\<rparr>"
        unfolding shrinks_def by blast
      from t(2) that(2) have "t' = t" by auto
      with t(1) have "(u, t') \<in> set tm" by (auto dest: map_of_SomeD)
      with ne that(2) show ?thesis by blast
    qed
    then have "parent_edges ?tm = live_edges ?tm"
      by (auto simp: parent_edges_def live_edges_def)
    with a have "acyclic (parent_edges ?tm)" by simp
    moreover have "\<forall>(u, t) \<in> set ?tm. parent_uid t \<noteq> PNone \<longrightarrow> map_of ?tm (parent_uid t) \<noteq> None"
      using b tr entry by blast
    ultimately show ?thesis by (simp add: hierarchy_valid_def)
  qed
  from a b c show ?thesis by blast
qed

text \<open>
  What the validation is called on: the dictionary that \<open>sync_tasks_to_db\<close> builds from
  the records of \<open>get_all_tasks\<close>. The decoder stores a parent reference only when it is
  truthy, and \<open>None\<close> otherwise; the dictionary holds every key once and only records of
  the list.
\<close>

lemma parse_vtodo_safely_parent:
  assumes "parse_vtodo_safely astimezone fresh_uid todo = Some td"
  shows "parent_uid td = PNone \<or> truthy (parent_uid td)"
  using assms
  by (auto simp: parse_vtodo_safely_def Let_def split: wire.splits option.splits if_splits)

lemma get_all_tasks_loop_parent:
  assumes "\<forall>td \<in> set (fst st). parent_uid td = PNone \<or> truthy (parent_uid td)"
  shows "\<forall>td \<in> set (fst (get_all_tasks_loop astimezone uuid4 i todos st)).
           parent_uid td = PNone \<or> truthy (parent_uid td)"
  using assms
proof (induction todos arbitrary: i st)
  case Nil
  then show ?case by simp
next
  case (Cons todo todos)
  obtain task_dicts parse_errors where st: "st = (task_dicts, parse_errors)" by (cases st)
  show ?case
  proof (cases "parse_vtodo_safely astimezone (uuid4 i) todo")
    case None
    with Cons.IH [of "(task_dicts, parse_errors + 1)" "i + 1"] Cons.prems st
    show ?thesis by simp
  next
    case (Some td)
    from parse_vtodo_safely_parent [OF Some] Cons.prems st
    have "\<forall>td \<in> set (fst (task_dicts @ [td], parse_errors)).
            parent_uid td = PNone \<or> truthy (parent_uid td)"
      by auto
    from Cons.IH [OF this, of "i + 1"] Some st show ?thesis by simp
  qed
qed

lemma dict_set_keys:
  "map fst (dict_set tm k v) = (if k \<in> set (map fst tm) then map fst tm else map fst tm @ [k])"
  by (induction tm) (auto simp: rev_image_eqI)

lemma dict_set_entries: "set (dict_set tm k v) \<subseteq> insert (k, v) (set tm)"
  by (induction tm) (auto split: if_splits)

lemma build_task_map_fold:
  assumes "distinct (map fst acc)" "\<forall>(u, t) \<in> set acc. P t" "\<forall>t \<in> set tds. P t"
  shows "distinct (map fst (foldl (\<lambda>tm td. dict_set tm (uid td) td) acc tds))
       \<and> (\<forall>(u, t) \<in> set (foldl (\<lambda>tm td. dict_set tm (uid td) td) acc tds). P t)"
  using assms
proof (induction tds arbitrary: acc)
  case Nil
  then show ?case by simp
next
  case (Cons td tds)
  have d: "distinct (map fst (dict_set acc (uid td) td))"
    using Cons.prems(1) by (simp add: dict_set_keys)
  have p: "\<forall>(u, t) \<in> set (dict_set acc (uid td) td). P t"
    using Cons.prems(2,3) dict_set_entries [of acc "uid td" td] by auto
  from Cons.IH [OF d p] Cons.prems(3) show ?case by simp
qed

lemma build_task_map_dict:
  assumes "\<forall>t \<in> set tds. P t"
  shows "distinct (map fst (build_task_map tds)) \<and> (\<forall>(u, t) \<in> set (build_task_map tds). P t)"
  unfolding build_task_map_def
  using build_task_map_fold [of "[]" P tds] assms by simp

lemma decoded_batch_valid:
  assumes "get_all_tasks astimezone uuid4 remote_todos = Inr decoded"
  shows "hierarchy_valid (validate_task_hierarchy (build_task_map decoded))"
proof -
  from assms obtain todos where
    "decoded = fst (get_all_tasks_loop astimezone uuid4 0 todos ([], 0))"
    by (auto simp: get_all_tasks_def split: outcome.splits)
  with get_all_tasks_loop_parent [of "([], 0)" astimezone uuid4 0 todos]
  have "\<forall>td \<in> set decoded. parent_uid td = PNone \<or> truthy (parent_uid td)"
    by simp
  from build_task_map_dict [of decoded "\<lambda>t. parent_uid t = PNone \<or> truthy (parent_uid t)", OF this]
  have d: "distinct (map fst (build_task_map decoded))"
    and p: "\<forall>(u, t) \<in> set (build_task_map decoded). parent_uid t \<noteq> PNone \<longrightarrow> truthy (parent_uid t)"
    by auto
  from validated_batch [OF d] p show ?thesis by blast
qed

text \<open>
  C6. For every batch that the program validates, that is the dictionary built from the
  records that \<open>get_all_tasks\<close> decoded, after validation the batch has no parent-chain
  cycle and every non-null parent is a key of the batch. The same holds for every
  dictionary (each key once) whose records have a parent that is \<open>None\<close> or truthy, as
  the decoder's records have. And for every dictionary whatsoever, after validation no
  cycle runs through truthy parents and every truthy parent is a key of the batch.
\<close>

theorem validate_task_hierarchy_forest:
  "(get_all_tasks astimezone uuid4 remote_todos = Inr decoded
      \<longrightarrow> hierarchy_valid (validate_task_hierarchy (build_task_map decoded)))
   \<and> (distinct (map fst tm)
        \<and> (\<forall>(u, t) \<in> set tm. parent_uid t \<noteq> PNone \<longrightarrow> truthy (parent_uid t))
      \<longrightarrow> hierarchy_valid (validate_task_hierarchy tm))
   \<and> (distinct (map fst tm)
      \<longrightarrow> acyclic (live_edges (validate_task_hierarchy tm))
          \<and> (\<forall>(u, t) \<in> set (validate_task_hierarchy tm).
                truthy (parent_uid t)
                \<longrightarrow> map_of (validate_task_hierarchy tm) (parent_uid t) \<noteq> None))"
  using decoded_batch_valid [of astimezone uuid4 remote_todos decoded] validated_batch [of tm]
  by blast

lemma validate_cycle_batch:
  "validate_task_hierarchy_fixed
     (batch_of [(''A'', PStr ''B''), (''B'', PStr ''C''), (''C'', PStr ''A''), (''D'', PStr ''E'')])
   = (batch_of [(''A'', PNone), (''B'', PStr ''C''), (''C'', PStr ''A''), (''D'', PNone)], 2)"
  by (simp add: validate_task_hierarchy_fixed_def batch_of_def record_of_def clear_parent_def
      has_cycle.simps)

lemma decode_two_records:
  "get_all_tasks Converted (\<lambda>i. ''generated'')
     (Return [ICal [(''VTODO'', [(''UID'', PStr ''A''), (''RELATED-TO'', PStr [])])],
              ICal [(''VTODO'', [(''UID'', PStr ''B''), (''RELATED-TO'', PStr ''B'')])]])
   = Inr [\<lparr> uid = PStr ''A'', summary = PStr ''Untitled Task'', description = PNone,
            due = PNone, created = PNone, completed_at = PNone, priority = PNone,
            percent_complete = PInt 0, completed = False, parent_uid = PNone \<rparr>,
          \<lparr> uid = PStr ''B'', summary = PStr ''Untitled Task'', description = PNone,
            due = PNone, created = PNone, completed_at = PNone, priority = PNone,
            percent_complete = PInt 0, completed = False, parent_uid = PStr ''B'' \<rparr>]"
  by (simp add: get_all_tasks_def parse_vtodo_safely_def safe_get_value_def getattr_def
      decode_priority_def Let_def)

text \<open>
  Two inputs. A pull of two records, one with an empty parent reference, which is decoded
  as \<open>None\<close>, and one that names itself as its parent: the validated batch is valid. And
  the batch of the specification's example, the cycle A, B, C and the record D whose
  parent E is missing: two repairs, the parent of D and the parent of A are cleared.
\<close>

theorem validate_task_hierarchy_forest_witness:
  "get_all_tasks Converted (\<lambda>i. ''generated'')
     (Return [ICal [(''VTODO'', [(''UID'', PStr ''A''), (''RELATED-TO'', PStr [])])],
              ICal [(''VTODO'', [(''UID'', PStr ''B''), (''RELATED-TO'', PStr ''B'')])]])
   = Inr [\<lparr> uid = PStr ''A'', summary = PStr ''Untitled Task'', description = PNone,
            due = PNone, created = PNone, completed_at = PNone, priority = PNone,
            percent_complete = PInt 0, completed = False, parent_uid = PNone \<rparr>,
          \<lparr> uid = PStr ''B'', summary = PStr ''Untitled Task'', description = PNone,
            due = PNone, created = PNone, completed_at = PNone, priority = PNone,
            percent_complete = PInt 0, completed = False, parent_uid = PStr ''B'' \<rparr>]
   \<and> hierarchy_valid (validate_task_hierarchy (build_task_map
        [\<lparr> uid = PStr ''A'', summary = PStr ''Untitled Task'', description = PNone,
            due = PNone, created = PNone, completed_at = PNone, priority = PNone,
            percent_complete = PInt 0, completed = False, parent_uid = PNone \<rparr>,
          \<lparr> uid = PStr ''B'', summary = PStr ''Untitled Task'', description = PNone,
            due = PNone, created = PNone, completed_at = PNone, priority = PNone,
            percent_complete = PInt 0, completed = False, parent_uid = PStr ''B'' \<rparr>]))
   \<and> distinct (map fst
      (batch_of [(''A'', PStr ''B''), (''B'', PStr ''C''), (''C'', PStr ''A''), (''D'', PStr ''E'')]))
   \<and> validate_task_hierarchy
        (batch_of [(''A'', PStr ''B''), (''B'', PStr ''C''), (''C'', PStr ''A''), (''D'', PStr ''E'')])
      = batch_of [(''A'', PNone), (''B'', PStr ''C''), (''C'', PStr ''A''), (''D'', PNone)]
   \<and> acyclic (live_edges (validate_task_hierarchy
        (batch_of [(''A'', PStr ''B''), (''B'', PStr ''C''), (''C'', PStr ''A''), (''D'', PStr ''E'')])))
   \<and> hierarchy_valid (validate_task_hierarchy
        (batch_of [(''A'', PStr ''B''), (''B'', PStr ''C''), (''C'', PStr ''A''), (''D'', PStr ''E'')]))"
proof -
  let ?b = "batch_of [(''A'', PStr ''B''), (''B'', PStr ''C''), (''C'', PStr ''A''), (''D'', PStr ''E'')]"
  let ?todos = "Return [ICal [(''VTODO'', [(''UID'', PStr ''A''), (''RELATED-TO'', PStr [])])],
                        ICal [(''VTODO'', [(''UID'', PStr ''B''), (''RELATED-TO'', PStr ''B'')])]]"
  let ?ds = "[\<lparr> uid = PStr ''A'', summary = PStr ''Untitled Task'', description = PNone,
            due = PNone, created = PNone, completed_at = PNone, priority = PNone,
            percent_complete = PInt 0, completed = False, parent_uid = PNone \<rparr>,
          \<lparr> uid = PStr ''B'', summary = PStr ''Untitled Task'', description = PNone,
            due = PNone, created = PNone, completed_at = PNone, priority = PNone,
            percent_complete = PInt 0, completed = False, parent_uid = PStr ''B'' \<rparr>]"
  have g: "get_all_tasks Converted (\<lambda>i. ''generated'') ?todos = Inr ?ds"
    by (rule decode_two_records)
  have d: "distinct (map fst ?b)"
    by (simp add: batch_of_def)
  have t: "\<forall>(u, t) \<in> set ?b. parent_uid t \<noteq> PNone \<longrightarrow> truthy (parent_uid t)"
    by (simp add: batch_of_def record_of_def)
  have v: "validate_task_hierarchy ?b
             = batch_of [(''A'', PNone), (''B'', PStr ''C''), (''C'', PStr ''A''), (''D'', PNone)]"
    by (simp add: validate_task_hierarchy_def validate_cycle_batch)
  from validate_task_hierarchy_forest
         [of Converted "\<lambda>i. ''generated''" ?todos ?ds ?b] g d t
  have "hierarchy_valid (validate_task_hierarchy (build_task_map ?ds))"
       "acyclic (live_edges (validate_task_hierarchy ?b))"
       "hierarchy_valid (validate_task_hierarchy ?b)"
    by blast+
  with g d v show ?thesis by blast
qed

lemma valid_chain: "hierarchy_valid (batch_of [(''A'', PNone), (''B'', PStr ''A'')])"
proof -
  have e: "parent_edges (batch_of [(''A'', PNone), (''B'', PStr ''A'')]) = {(PStr ''B'', PStr ''A'')}"
    by (auto simp: parent_edges_def batch_of_def record_of_def split: if_splits)
  show ?thesis
    unfolding hierarchy_valid_def e
    by (simp add: batch_of_def record_of_def wf_acyclic)
qed

text \<open>A valid batch, a record and its child: validation returns it with no repair.\<close>

theorem validate_task_hierarchy_idempotent_witness:
  "hierarchy_valid (batch_of [(''A'', PNone), (''B'', PStr ''A'')])
   \<and> validate_task_hierarchy_fixed (batch_of [(''A'', PNone), (''B'', PStr ''A'')])
       = (batch_of [(''A'', PNone), (''B'', PStr ''A'')], 0)"
  using validate_task_hierarchy_idempotent [of "batch_of [(''A'', PNone), (''B'', PStr ''A'')]"]
    valid_chain
  by blast

end
